theory Spec2Isabelle
  imports Main "HOL-Library.Sublist"
begin

section \<open>JavaScript values and built-ins used by AuthManager\<close>

text \<open>
  The subject held in \<open>this.user\<close> is whatever \<open>JSON.parse\<close>, a message event or the
  caller handed over, so it is a JSON value or \<open>undefined\<close>; \<open>null\<close> is \<open>JNull\<close>. A
  \<open>User\<close> of the TypeScript interface is a \<open>JObj\<close>. Numbers only ever meet the code's
  truthiness test, so they are integers here. Strings are byte strings; times are
  integral milliseconds.
\<close>

datatype jsval =
    JUndefined
  | JNull
  | JBool bool
  | JNum int
  | JStr string
  | JArr "jsval list"
  | JObj "(string \<times> jsval) list"

text \<open>JavaScript truthiness, as \<open>!this.user\<close> and \<open>!user\<close> test it.\<close>

fun truthy :: "jsval \<Rightarrow> bool" where
  "truthy JUndefined = False"
| "truthy JNull = False"
| "truthy (JBool b) = b"
| "truthy (JNum n) = (n \<noteq> 0)"
| "truthy (JStr s) = (s \<noteq> [])"
| "truthy (JArr _) = True"
| "truthy (JObj _) = True"

text \<open>A \<open>string | null\<close> is truthy when it is a non-empty string.\<close>

fun truthy_str :: "string option \<Rightarrow> bool" where
  "truthy_str None = False"
| "truthy_str (Some s) = (s \<noteq> [])"

text \<open>\<open>a || b\<close> on \<open>string | null\<close> operands.\<close>

definition or_else :: "string option \<Rightarrow> string option \<Rightarrow> string option" where
  "or_else a b = (if truthy_str a then a else b)"

text \<open>
  \<open>tokenExpiryTime\<close> is \<open>null\<close>, a number, or the \<open>NaN\<close> that \<open>parseInt\<close> yields on
  a string without digits.
\<close>

datatype expiry = ENull | ENaN | ENum int

text \<open>\<open>this.tokenExpiryTime && Date.now() > this.tokenExpiryTime\<close>.\<close>

fun expired :: "expiry \<Rightarrow> int \<Rightarrow> bool" where
  "expired ENull now = False"
| "expired ENaN now = False"
| "expired (ENum e) now = (e \<noteq> 0 \<and> now > e)"

subsection \<open>Number.prototype.toString, parseInt, toUpperCase\<close>

definition digit_char :: "nat \<Rightarrow> char" where
  "digit_char d = ''0123456789'' ! (d mod 10)"

fun nat_toString :: "nat \<Rightarrow> string" where
  "nat_toString n =
     (if n < 10 then [digit_char n] else nat_toString (n div 10) @ [digit_char (n mod 10)])"

declare nat_toString.simps [simp del]

text \<open>Decimal rendering of an integral number (times are safe integers, far below 1e21).\<close>

definition num_toString :: "int \<Rightarrow> string" where
  "num_toString i = (if i < 0 then CHR ''-'' # nat_toString (nat (- i)) else nat_toString (nat i))"

definition digit_table :: "(char \<times> nat) list" where
  "digit_table =
     [(CHR ''0'', 0), (CHR ''1'', 1), (CHR ''2'', 2), (CHR ''3'', 3), (CHR ''4'', 4),
      (CHR ''5'', 5), (CHR ''6'', 6), (CHR ''7'', 7), (CHR ''8'', 8), (CHR ''9'', 9),
      (CHR ''a'', 10), (CHR ''b'', 11), (CHR ''c'', 12), (CHR ''d'', 13), (CHR ''e'', 14),
      (CHR ''f'', 15),
      (CHR ''A'', 10), (CHR ''B'', 11), (CHR ''C'', 12), (CHR ''D'', 13), (CHR ''E'', 14),
      (CHR ''F'', 15)]"

definition digit_val :: "nat \<Rightarrow> char \<Rightarrow> nat option" where
  "digit_val radix c =
     (case map_of digit_table c of
        None \<Rightarrow> None
      | Some v \<Rightarrow> if v < radix then Some v else None)"

definition is_ws :: "char \<Rightarrow> bool" where
  "is_ws c = (c \<in> set [CHR '' '', CHR 0x09, CHR 0x0A, CHR 0x0B, CHR 0x0C, CHR 0x0D])"

definition digits_value :: "nat \<Rightarrow> char list \<Rightarrow> nat" where
  "digits_value radix ds = foldl (\<lambda>acc c. acc * radix + the (digit_val radix c)) 0 ds"

text \<open>
  \<open>parseInt(s)\<close> with no radix: leading white space (the ASCII part of it) is skipped,
  a sign is read, a \<open>0x\<close> or \<open>0X\<close> prefix selects radix 16, the longest prefix of
  digits is the value and the rest is ignored; no digit gives \<open>NaN\<close>, here \<open>None\<close>.
\<close>

definition parseInt :: "string \<Rightarrow> int option" where
  "parseInt s =
     (let s1 = dropWhile is_ws s;
          neg = (s1 \<noteq> [] \<and> hd s1 = CHR ''-'');
          s2 = (if s1 \<noteq> [] \<and> (hd s1 = CHR ''-'' \<or> hd s1 = CHR ''+'') then tl s1 else s1);
          hex = (take 2 s2 = ''0x'' \<or> take 2 s2 = ''0X'');
          radix = (if hex then 16 else 10);
          s3 = (if hex then drop 2 s2 else s2);
          ds = takeWhile (\<lambda>c. digit_val radix c \<noteq> None) s3
      in if ds = [] then None
         else Some ((if neg then - 1 else 1) * int (digits_value radix ds)))"

definition upper_table :: "(char \<times> char) list" where
  "upper_table = zip ''abcdefghijklmnopqrstuvwxyz'' ''ABCDEFGHIJKLMNOPQRSTUVWXYZ''"

definition toUpperCase :: "string \<Rightarrow> string" where
  "toUpperCase s = map (\<lambda>c. case map_of upper_table c of None \<Rightarrow> c | Some u \<Rightarrow> u) s"

subsection \<open>URLSearchParams on a list of name/value pairs\<close>

type_synonym params = "(string \<times> string) list"

text \<open>\<open>get\<close>: the value of the first pair with that name, else \<open>null\<close>.\<close>

definition sp_get :: "params \<Rightarrow> string \<Rightarrow> string option" where
  "sp_get ps name = map_of ps name"

text \<open>\<open>delete\<close>: every pair with that name goes.\<close>

definition sp_delete :: "string \<Rightarrow> params \<Rightarrow> params" where
  "sp_delete name ps = filter (\<lambda>p. fst p \<noteq> name) ps"

text \<open>
  \<open>set\<close>: the first pair with that name takes the value and the later ones are removed;
  with no such pair, the pair is appended.
\<close>

fun sp_set :: "string \<Rightarrow> string \<Rightarrow> params \<Rightarrow> params" where
  "sp_set name v [] = [(name, v)]"
| "sp_set name v (p # ps) =
     (if fst p = name then (name, v) # sp_delete name ps else p # sp_set name v ps)"

record url =
  base :: string
  query :: params
  fragment :: string

subsection \<open>String.prototype.split with a non-empty separator\<close>

function split_from :: "string \<Rightarrow> string \<Rightarrow> string \<Rightarrow> string list" where
  "split_from sep cur [] = [rev cur]"
| "split_from sep cur (c # cs) =
     (if sep \<noteq> [] \<and> prefix sep (c # cs)
      then rev cur # split_from sep [] (drop (length sep) (c # cs))
      else split_from sep (c # cur) cs)"
  by pat_completeness auto
termination
  by (relation "measure (\<lambda>(sep, cur, s). length s)") (auto simp: neq_Nil_conv)

definition split :: "string \<Rightarrow> string \<Rightarrow> string list" where
  "split s sep = split_from sep [] s"

section \<open>The browser and the AuthManager instance\<close>

text \<open>
  A subscriber is a function object; \<open>lid\<close> is its identity, which is all that
  \<open>l !== listener\<close> compares. What a callback does to the manager when it runs is a list
  of these actions: it registers a function, or it invokes the de-registration handle
  that \<open>subscribe\<close> returned for a function. Callbacks return normally and do not call
  \<open>login\<close> or \<open>logout\<close> themselves.
\<close>

type_synonym lid = nat

datatype action = Subscribe lid | Unsubscribe lid

datatype error = NotLoggedIn | InvalidAuthState | SyntaxError | URIError | TypeError

text \<open>
  The payload of an \<open>AUTH_SHARE\<close> envelope and the data of a message event:
  \<open>{ type, user, auth }\<close>, with \<open>JUndefined\<close> and \<open>None\<close> for a missing property.
\<close>

datatype share = Share (sh_token: string) (sh_user: jsval) (sh_timestamp: int)

datatype message = Message (mtype: string) (muser: jsval) (mauth: "share option")

text \<open>
  The built-ins of the platform that the class calls and this development does not
  embed, the behaviour of the subscribed callbacks, and the page's host. \<open>None\<close> is the
  exception of the built-in: \<open>SyntaxError\<close> of \<open>JSON.parse\<close>, \<open>TypeError\<close> of
  \<open>new URL\<close>, \<open>URIError\<close> of \<open>decodeURIComponent\<close>. \<open>JSON_stringify\<close> is the string
  that \<open>setItem\<close>, \<open>searchParams.set\<close> and the cookie receive.
\<close>

record env =
  JSON_parse :: "string \<Rightarrow> jsval option"
  JSON_stringify :: "jsval \<Rightarrow> string"
  URL_parse :: "string \<Rightarrow> url option"
  URL_toString :: "url \<Rightarrow> string"
  encodeURIComponent :: "string \<Rightarrow> string"
  decodeURIComponent :: "string \<Rightarrow> string option"
  channelSupported :: bool
  beh :: "lid \<Rightarrow> jsval \<Rightarrow> action list"
  hostname :: string
  protocol :: string

record config =
  domain :: string
  secure :: bool
  sameSite :: string
  crossOriginEnabled :: bool
  tokenExpiry :: int

text \<open>The constructor's argument: every key of \<open>AuthConfig\<close> is optional.\<close>

record config_in =
  in_domain :: "string option"
  in_secure :: "bool option"
  in_sameSite :: "string option"
  in_crossOriginEnabled :: "bool option"
  in_tokenExpiry :: "int option"

text \<open>
  The fields of the instance (\<open>user\<close>, \<open>listeners\<close>, \<open>tokenExpiryTime\<close>, \<open>config\<close>) and
  what it reads and writes in the browser. \<open>listeners\<close> is a reference into \<open>arrays\<close>, the
  store of array objects: \<open>push\<close> changes the array in place, while \<open>filter\<close> makes a new
  one. The last four fields only record what was emitted and which callbacks ran.
\<close>

record state =
  user :: jsval
  listeners :: nat
  tokenExpiryTime :: expiry
  config :: config
  arrays :: "lid list list"
  localStorage :: "string \<Rightarrow> string option"
  sessionStorage :: "string \<Rightarrow> string option"
  cookies :: params
  location :: url
  windowPosted :: "message list"
  channelPosted :: "message list"
  shared :: "(string \<times> message) list"
  calls :: "(lid \<times> jsval) list"

subsection \<open>subscribe and notify\<close>

text \<open>\<open>this.listeners.push(listener)\<close>; the handle returned is \<open>unsubscribe listener\<close>.\<close>

definition subscribe :: "lid \<Rightarrow> state \<Rightarrow> state" where
  "subscribe listener s =
     s\<lparr>arrays := (arrays s)[listeners s := arrays s ! listeners s @ [listener]]\<rparr>"

text \<open>\<open>this.listeners = this.listeners.filter(l => l !== listener)\<close>: a new array.\<close>

definition unsubscribe :: "lid \<Rightarrow> state \<Rightarrow> state" where
  "unsubscribe listener s =
     s\<lparr>arrays := arrays s @ [filter (\<lambda>l. l \<noteq> listener) (arrays s ! listeners s)],
       listeners := length (arrays s)\<rparr>"

fun run_action :: "state \<Rightarrow> action \<Rightarrow> state" where
  "run_action s (Subscribe l) = subscribe l s"
| "run_action s (Unsubscribe l) = unsubscribe l s"

text \<open>One call \<open>listener(this.user)\<close>: it is recorded, then the callback acts.\<close>

definition invoke :: "env \<Rightarrow> lid \<Rightarrow> state \<Rightarrow> state" where
  "invoke E l s = foldl run_action (s\<lparr>calls := calls s @ [(l, user s)]\<rparr>) (beh E l (user s))"

text \<open>
  \<open>Array.prototype.forEach\<close> on the array object at address \<open>a\<close>: the length is read
  once, before the first call; index \<open>k\<close> is visited when the array has it at that
  moment. The third argument counts the indices still to visit.
\<close>

primrec forEach :: "env \<Rightarrow> nat \<Rightarrow> nat \<Rightarrow> nat \<Rightarrow> state \<Rightarrow> state" where
  "forEach E a k 0 s = s"
| "forEach E a k (Suc n) s =
     forEach E a (Suc k) n
       (if k < length (arrays s ! a) then invoke E (arrays s ! a ! k) s else s)"

definition notify :: "env \<Rightarrow> state \<Rightarrow> state" where
  "notify E s = forEach E (listeners s) 0 (length (arrays s ! listeners s)) s"

text \<open>The registrations the manager currently holds.\<close>

definition registered :: "state \<Rightarrow> lid list" where
  "registered s = arrays s ! listeners s"

subsection \<open>broadcast, cookies\<close>

text \<open>
  \<open>window.postMessage\<close> to every listener of the own window, then the
  \<open>BroadcastChannel\<close>, whose absence is caught.
\<close>

definition broadcast :: "env \<Rightarrow> string \<Rightarrow> jsval \<Rightarrow> state \<Rightarrow> state" where
  "broadcast E type usr s =
     (let s1 = s\<lparr>windowPosted := windowPosted s @ [Message (''AUTH_'' @ toUpperCase type) usr None]\<rparr>
      in if channelSupported E
         then s1\<lparr>channelPosted := channelPosted s1 @ [Message type usr None]\<rparr>
         else s1)"

text \<open>
  The cookie jar is the list of name/value pairs that \<open>document.cookie\<close> shows, values as
  stored (encoded). Assigning a cookie string with a positive \<open>max-age\<close> stores the pair,
  in the place of an older one of that name; any other \<open>max-age\<close> removes it. The browser
  is taken to accept the cookie for the configured domain.
\<close>

fun upsert :: "string \<Rightarrow> string \<Rightarrow> params \<Rightarrow> params" where
  "upsert name v [] = [(name, v)]"
| "upsert name v (p # ps) = (if fst p = name then (name, v) # ps else p # upsert name v ps)"

definition setCookie :: "env \<Rightarrow> string \<Rightarrow> string \<Rightarrow> int \<Rightarrow> state \<Rightarrow> state" where
  "setCookie E name v maxAge s =
     s\<lparr>cookies := (if 0 < maxAge then upsert name (encodeURIComponent E v) (cookies s)
                    else filter (\<lambda>p. fst p \<noteq> name) (cookies s))\<rparr>"

definition deleteCookie :: "env \<Rightarrow> string \<Rightarrow> state \<Rightarrow> state" where
  "deleteCookie E name s = setCookie E name [] (- 1) s"

fun document_cookie :: "params \<Rightarrow> string" where
  "document_cookie [] = []"
| "document_cookie [p] = fst p @ ''='' @ snd p"
| "document_cookie (p # ps) = fst p @ ''='' @ snd p @ ''; '' @ document_cookie ps"

text \<open>
  \<open>getCookie\<close>: the cookie string is cut at \<open>; name=\<close>; exactly two parts mean the
  name occurs once, and the value is the second part up to its first \<open>;\<close>, decoded.
\<close>

definition getCookie :: "env \<Rightarrow> state \<Rightarrow> string \<Rightarrow> error + string option" where
  "getCookie E s name =
     (let v = ''; '' @ document_cookie (cookies s);
          parts = split v (''; '' @ name @ ''='')
      in if length parts = 2
         then (case decodeURIComponent E (hd (split (last parts) '';'')) of
                 None \<Rightarrow> Inl URIError
               | Some d \<Rightarrow> Inr (Some d))
         else Inr None)"

subsection \<open>login, logout, isLoggedIn, getUser, getToken\<close>

definition login :: "env \<Rightarrow> int \<Rightarrow> state \<Rightarrow> jsval \<Rightarrow> string \<Rightarrow> state" where
  "login E now s usr token =
     (let s1 = s\<lparr>user := usr, tokenExpiryTime := ENum (now + tokenExpiry (config s))\<rparr>;
          s2 = s1\<lparr>localStorage := (localStorage s1)
                  (''auth:token'' \<mapsto> token,
                   ''auth:user'' \<mapsto> JSON_stringify E usr,
                   ''auth:expiry'' \<mapsto> num_toString (now + tokenExpiry (config s)))\<rparr>;
          s3 = setCookie E ''auth_token'' token (tokenExpiry (config s2)) s2;
          s4 = setCookie E ''auth_user'' (JSON_stringify E usr) (tokenExpiry (config s3)) s3;
          s5 = notify E s4;
          s6 = broadcast E ''login'' usr s5
      in s6\<lparr>sessionStorage := (sessionStorage s6)
               (''auth:token'' \<mapsto> token, ''auth:user'' \<mapsto> JSON_stringify E usr)\<rparr>)"

definition logout :: "env \<Rightarrow> state \<Rightarrow> state" where
  "logout E s =
     (let s1 = s\<lparr>user := JNull, tokenExpiryTime := ENull\<rparr>;
          s2 = s1\<lparr>localStorage := (localStorage s1)
                  (''auth:token'' := None, ''auth:user'' := None, ''auth:expiry'' := None)\<rparr>;
          s3 = s2\<lparr>sessionStorage := (sessionStorage s2)
                  (''auth:token'' := None, ''auth:user'' := None)\<rparr>;
          s4 = deleteCookie E ''auth_token'' s3;
          s5 = deleteCookie E ''auth_user'' s4;
          s6 = notify E s5
      in broadcast E ''logout'' JUndefined s6)"

text \<open>A read that logs out when the deadline has passed; \<open>now\<close> is \<open>Date.now()\<close>.\<close>

definition isLoggedIn :: "env \<Rightarrow> int \<Rightarrow> state \<Rightarrow> bool \<times> state" where
  "isLoggedIn E now s =
     (if \<not> truthy (user s) then (False, s)
      else if expired (tokenExpiryTime s) now then (False, logout E s)
      else (True, s))"

definition getUser :: "state \<Rightarrow> jsval" where
  "getUser s = user s"

definition getToken :: "state \<Rightarrow> string option" where
  "getToken s = or_else (localStorage s ''auth:token'') (sessionStorage s ''auth:token'')"

subsection \<open>The hand-off: generateAuthUrl, processAuthFromUrl, shareAuthWithApp\<close>

text \<open>
  The three \<open>searchParams.set\<close> calls of \<open>generateAuthUrl\<close>; \<open>now\<close> is the instant of the
  call, read by \<open>isLoggedIn\<close> and for the timestamp.
\<close>

definition with_auth_params :: "string \<Rightarrow> string \<Rightarrow> string \<Rightarrow> url \<Rightarrow> url" where
  "with_auth_params token userStr stamp u =
     u\<lparr>query := sp_set ''auth_timestamp'' stamp
                  (sp_set ''auth_user'' userStr (sp_set ''auth_token'' token (query u)))\<rparr>"

definition generateAuthUrl :: "env \<Rightarrow> int \<Rightarrow> state \<Rightarrow> string \<Rightarrow> (error + string) \<times> state" where
  "generateAuthUrl E now s targetUrl =
     (case isLoggedIn E now s of
        (False, s1) \<Rightarrow> (Inl NotLoggedIn, s1)
      | (True, s1) \<Rightarrow>
          (let token = getToken s1; usr = getUser s1
           in if \<not> truthy_str token \<or> \<not> truthy usr then (Inl InvalidAuthState, s1)
              else (case URL_parse E targetUrl of
                      None \<Rightarrow> (Inl TypeError, s1)
                    | Some u \<Rightarrow>
                        (Inr (URL_toString E
                               (with_auth_params (the token) (JSON_stringify E usr)
                                  (num_toString now) u)), s1))))"

text \<open>The three \<open>searchParams.delete\<close> calls that clean the visible URL.\<close>

definition without_auth_params :: "url \<Rightarrow> url" where
  "without_auth_params u =
     u\<lparr>query := sp_delete ''auth_timestamp''
                  (sp_delete ''auth_user'' (sp_delete ''auth_token'' (query u)))\<rparr>"

text \<open>
  \<open>location\<close> is the parsed current URL; \<open>history.replaceState\<close> replaces it. A
  \<open>SyntaxError\<close> of \<open>JSON.parse\<close> is caught and logged, and \<open>NaN\<close> fails the comparison.
\<close>

definition processAuthFromUrl :: "env \<Rightarrow> int \<Rightarrow> state \<Rightarrow> bool \<times> state" where
  "processAuthFromUrl E now s =
     (let token = sp_get (query (location s)) ''auth_token'';
          userStr = sp_get (query (location s)) ''auth_user'';
          timestamp = sp_get (query (location s)) ''auth_timestamp''
      in if truthy_str token \<and> truthy_str userStr \<and> truthy_str timestamp
         then (case JSON_parse E (the userStr) of
                 None \<Rightarrow> (False, s)
               | Some usr \<Rightarrow>
                   (case parseInt (the timestamp) of
                      None \<Rightarrow> (False, s)
                    | Some authTime \<Rightarrow>
                        if now - authTime < 5 * 60 * 1000
                        then (let s1 = login E now s usr (the token)
                              in (True, s1\<lparr>location := without_auth_params (location s1)\<rparr>))
                        else (False, s)))
         else (False, s))"

definition shareAuthWithApp :: "env \<Rightarrow> int \<Rightarrow> state \<Rightarrow> string \<Rightarrow> (error + unit) \<times> state" where
  "shareAuthWithApp E now s targetOrigin =
     (case isLoggedIn E now s of
        (False, s1) \<Rightarrow> (Inl NotLoggedIn, s1)
      | (True, s1) \<Rightarrow>
          (let token = getToken s1; usr = getUser s1
           in if \<not> truthy_str token \<or> \<not> truthy usr then (Inl InvalidAuthState, s1)
              else (Inr (),
                    s1\<lparr>shared := shared s1 @
                         [(targetOrigin,
                           Message ''AUTH_SHARE'' JUndefined
                             (Some (Share (the token) usr now)))]\<rparr>)))"

subsection \<open>Construction: restoreSession\<close>

definition restoreSession :: "env \<Rightarrow> state \<Rightarrow> error + state" where
  "restoreSession E s =
     (case getCookie E s ''auth_token'' of
        Inl e \<Rightarrow> Inl e
      | Inr cookieToken \<Rightarrow>
          (case getCookie E s ''auth_user'' of
             Inl e \<Rightarrow> Inl e
           | Inr cookieUser \<Rightarrow>
               (let localToken = localStorage s ''auth:token'';
                    localUser = localStorage s ''auth:user'';
                    token = or_else cookieToken localToken;
                    userStr = or_else cookieUser localUser
                in if truthy_str token \<and> truthy_str userStr
                   then (case JSON_parse E (the userStr) of
                           None \<Rightarrow> Inr (logout E s)
                         | Some usr \<Rightarrow>
                             (let s1 = s\<lparr>user := usr\<rparr>;
                                  expiryStr = localStorage s1 ''auth:expiry''
                              in if truthy_str expiryStr
                                 then Inr (s1\<lparr>tokenExpiryTime :=
                                             (case parseInt (the expiryStr) of
                                                None \<Rightarrow> ENaN
                                              | Some e \<Rightarrow> ENum e)\<rparr>)
                                 else Inr s1))
                   else Inr s)))"

text \<open>
  The defaults of the constructor; the spread \<open>...config\<close> that ends the object literal
  puts every key that was given back, whatever its value.
\<close>

definition resolve_config :: "env \<Rightarrow> config_in \<Rightarrow> config" where
  "resolve_config E c =
     \<lparr>domain = (case in_domain c of None \<Rightarrow> hostname E | Some d \<Rightarrow> d),
      secure = (case in_secure c of None \<Rightarrow> protocol E = ''https:'' | Some b \<Rightarrow> b),
      sameSite = (case in_sameSite c of None \<Rightarrow> ''lax'' | Some p \<Rightarrow> p),
      crossOriginEnabled = (case in_crossOriginEnabled c of None \<Rightarrow> True | Some b \<Rightarrow> b),
      tokenExpiry = (case in_tokenExpiry c of None \<Rightarrow> 24 * 60 * 60 * 1000 | Some t \<Rightarrow> t)\<rparr>"

text \<open>
  The first \<open>new AuthManager(config)\<close> of a page whose browser state is \<open>s0\<close>; later
  constructions return this instance.
\<close>

definition construct :: "env \<Rightarrow> config_in \<Rightarrow> state \<Rightarrow> error + state" where
  "construct E c s0 =
     restoreSession E
       (s0\<lparr>user := JNull, arrays := arrays s0 @ [[]], listeners := length (arrays s0),
           tokenExpiryTime := ENull, config := resolve_config E c\<rparr>)"

subsection \<open>Inbound notifications\<close>

text \<open>
  The \<open>message\<close> listener of \<open>setupCrossOriginListener\<close>, registered when
  \<open>crossOriginEnabled\<close>. Destructuring a missing \<open>auth\<close> throws inside the listener and
  changes nothing.
\<close>

definition on_share_message :: "env \<Rightarrow> int \<Rightarrow> state \<Rightarrow> message \<Rightarrow> state" where
  "on_share_message E now s m =
     (if \<not> crossOriginEnabled (config s) then s
      else if mtype m = ''AUTH_SHARE''
      then (case mauth m of
              None \<Rightarrow> s
            | Some a \<Rightarrow>
                if now - sh_timestamp a < 5 * 60 * 1000
                then login E now s (sh_user a) (sh_token a)
                else s)
      else s)"

text \<open>The three listeners of \<open>listenForExternalChanges\<close>.\<close>

definition on_channel_message :: "env \<Rightarrow> state \<Rightarrow> message \<Rightarrow> state" where
  "on_channel_message E s m =
     (if mtype m = ''login'' then notify E (s\<lparr>user := muser m\<rparr>)
      else if mtype m = ''logout'' then notify E (s\<lparr>user := JNull\<rparr>)
      else s)"

definition on_window_message :: "env \<Rightarrow> state \<Rightarrow> message \<Rightarrow> state" where
  "on_window_message E s m =
     (if mtype m = ''AUTH_LOGIN'' then notify E (s\<lparr>user := muser m\<rparr>)
      else if mtype m = ''AUTH_LOGOUT'' then notify E (s\<lparr>user := JNull\<rparr>)
      else s)"

definition on_storage :: "env \<Rightarrow> state \<Rightarrow> string option \<Rightarrow> string option \<Rightarrow> string option \<Rightarrow> state" where
  "on_storage E s key newValue oldValue =
     (if key = Some ''auth:user'' \<and> \<not> truthy_str newValue \<and> truthy_str oldValue
      then notify E (s\<lparr>user := JNull\<rparr>)
      else s)"

text \<open>
  An inbound notification is a message on the broadcast channel, a window message (which
  reaches the listener of \<open>setupCrossOriginListener\<close> first, registered at construction,
  then the one of \<open>listenForExternalChanges\<close>), or a storage event.
\<close>

datatype inbound =
    Channel message
  | Window message
  | Storage "string option" "string option" "string option"

fun receive :: "env \<Rightarrow> int \<Rightarrow> state \<Rightarrow> inbound \<Rightarrow> state" where
  "receive E now s (Channel m) = on_channel_message E s m"
| "receive E now s (Window m) = on_window_message E (on_share_message E now s m) m"
| "receive E now s (Storage key newValue oldValue) = on_storage E s key newValue oldValue"

subsection \<open>The variant of src/index.ts\<close>

text \<open>
  The TypeScript source has the same \<open>subscribe\<close>, \<open>notify\<close> and \<open>broadcast\<close>, no expiry
  and no cookies; its \<open>restoreSession\<close> calls \<open>JSON.parse\<close> outside any \<open>try\<close>.
\<close>

definition restoreSession_ts :: "env \<Rightarrow> state \<Rightarrow> error + state" where
  "restoreSession_ts E s =
     (let token = localStorage s ''auth:token'';
          userStr = localStorage s ''auth:user''
      in if truthy_str token \<and> truthy_str userStr
         then (case JSON_parse E (the userStr) of
                 None \<Rightarrow> Inl SyntaxError
               | Some usr \<Rightarrow> Inr (s\<lparr>user := usr\<rparr>))
         else Inr s)"

definition construct_ts :: "env \<Rightarrow> state \<Rightarrow> error + state" where
  "construct_ts E s0 =
     restoreSession_ts E
       (s0\<lparr>user := JNull, arrays := arrays s0 @ [[]], listeners := length (arrays s0)\<rparr>)"

subsection \<open>Well-formed references\<close>

text \<open>\<open>this.listeners\<close> refers to an array of the store.\<close>

definition valid_ref :: "state \<Rightarrow> bool" where
  "valid_ref s = (listeners s < length (arrays s))"

text \<open>
  What running callbacks can do to the array object at address \<open>a\<close> while a pass iterates
  over it: elements are only ever added behind the ones it has.
\<close>

definition grows :: "nat \<Rightarrow> state \<Rightarrow> state \<Rightarrow> bool" where
  "grows a s s' =
     (valid_ref s' \<and> a < length (arrays s') \<and> prefix (arrays s ! a) (arrays s' ! a) \<and>
      user s' = user s)"

section \<open>A platform and pages for the examples\<close>

text \<open>
  One subject, its JSON text and the percent-encoded form of that text; a platform that
  knows these values and the URLs of one hand-off, and answers as a browser does on them.
\<close>

definition alice :: jsval where
  "alice = JObj [(''id'', JStr ''u1''), (''name'', JStr ''Alice''), (''email'', JStr ''alice@example.org'')]"

definition alice_json :: string where
  \<open>alice_json = ''{"id":"u1","name":"Alice","email":"alice@example.org"}''\<close>

definition alice_encoded :: string where
  "alice_encoded =
     ''%7B%22id%22%3A%22u1%22%2C%22name%22%3A%22Alice%22%2C%22email%22%3A%22alice%40example.org%22%7D''"

definition target_url :: url where
  "target_url = \<lparr>base = ''https://app-b.example/landing'', query = [], fragment = []\<rparr>"

definition handoff_url :: url where
  "handoff_url =
     \<lparr>base = ''https://app-b.example/landing'',
      query = [(''auth_token'', ''tok-1''), (''auth_user'', alice_json),
               (''auth_timestamp'', ''1700000000000'')],
      fragment = []\<rparr>"

definition handoff_href :: string where
  "handoff_href =
     ''https://app-b.example/landing?auth_token=tok-1&auth_user='' @ alice_encoded @
     ''&auth_timestamp=1700000000000''"

text \<open>
  Callback 1 de-registers itself and callback 3 when it runs, callback 2 registers
  callback 4, the others do nothing.
\<close>

definition env_demo :: env where
  "env_demo =
     \<lparr>JSON_parse = (\<lambda>t. if t = alice_json then Some alice else None),
      JSON_stringify = (\<lambda>v. if v = alice then alice_json else ''null''),
      URL_parse = (\<lambda>t. if t = ''https://app-b.example/landing'' then Some target_url
                        else if t = handoff_href then Some handoff_url else None),
      URL_toString = (\<lambda>u. if u = handoff_url then handoff_href else base u),
      encodeURIComponent = (\<lambda>t. if t = alice_json then alice_encoded else t),
      decodeURIComponent = (\<lambda>t. if t = alice_encoded then Some alice_json
                                 else if CHR ''%'' \<in> set t then None else Some t),
      channelSupported = True,
      beh = (\<lambda>l u. if l = 1 then [Unsubscribe 1, Unsubscribe 3]
                    else if l = 2 then [Subscribe 4] else []),
      hostname = ''app-a.example'',
      protocol = ''https:''\<rparr>"

definition no_config :: config_in where
  "no_config =
     \<lparr>in_domain = None, in_secure = None, in_sameSite = None,
      in_crossOriginEnabled = None, in_tokenExpiry = None\<rparr>"

text \<open>A page with empty storage and no cookie, and the manager constructed on it.\<close>

definition page :: state where
  "page =
     \<lparr>user = JUndefined, listeners = 0, tokenExpiryTime = ENull,
      config = \<lparr>domain = [], secure = False, sameSite = [], crossOriginEnabled = False,
                tokenExpiry = 0\<rparr>,
      arrays = [], localStorage = (\<lambda>k. None), sessionStorage = (\<lambda>k. None), cookies = [],
      location = \<lparr>base = ''https://app-a.example/'', query = [], fragment = []\<rparr>,
      windowPosted = [], channelPosted = [], shared = [], calls = []\<rparr>"

definition fresh :: state where
  "fresh =
     page\<lparr>user := JNull, arrays := [[]], listeners := 0,
          config := \<lparr>domain = ''app-a.example'', secure = True, sameSite = ''lax'',
                      crossOriginEnabled = True, tokenExpiry = 86400000\<rparr>\<rparr>"

text \<open>
  The manager of the example page after a login, and a page of the receiving application
  opened at the hand-off URL.
\<close>

definition signed_in :: state where
  "signed_in = login env_demo 1699999990000 fresh alice ''tok-1''"

definition landing :: state where
  "landing = fresh\<lparr>location := handoff_url\<rparr>"

text \<open>
  A page whose cookie holds only a token while \<open>localStorage\<close> holds only a subject, a page
  whose stored subject does not parse, and an \<open>AUTH_SHARE\<close> envelope.
\<close>

definition mixed_page :: state where
  "mixed_page =
     page\<lparr>cookies := [(''auth_token'', ''tok-9'')],
          localStorage := (\<lambda>k. None)(''auth:user'' \<mapsto> alice_json)\<rparr>"

definition corrupt_page :: state where
  "corrupt_page =
     page\<lparr>localStorage := (\<lambda>k. None)(''auth:token'' \<mapsto> ''tok-1'', ''auth:user'' \<mapsto> ''not-json'')\<rparr>"

definition share_demo :: message where
  "share_demo = Message ''AUTH_SHARE'' JUndefined (Some (Share ''tok-1'' alice 1700000000000))"

text \<open>Everything the manager has emitted: window messages, channel messages, hand-offs.\<close>

definition outbound :: "state \<Rightarrow> message list \<times> message list \<times> (string \<times> message) list" where
  "outbound s = (windowPosted s, channelPosted s, shared s)"

text \<open>
  What construction leaves to be observed: subject, \<open>getToken()\<close> and deadline; the three
  stores; and the deadline that \<open>restoreSession\<close> reads, which is always the one of
  \<open>localStorage\<close>. A page whose cookie holds a complete pair while \<open>localStorage\<close> holds
  another token.
\<close>

definition stored_deadline :: "state \<Rightarrow> expiry" where
  "stored_deadline s =
     (if truthy_str (localStorage s ''auth:expiry'')
      then (case parseInt (the (localStorage s ''auth:expiry'')) of
              None \<Rightarrow> ENaN
            | Some e \<Rightarrow> ENum e)
      else ENull)"

definition restored :: "error + state \<Rightarrow> error + jsval \<times> string option \<times> expiry" where
  "restored r = map_sum id (\<lambda>s. (getUser s, getToken s, tokenExpiryTime s)) r"

definition both_page :: state where
  "both_page =
     page\<lparr>cookies := [(''auth_token'', ''ctok''), (''auth_user'', alice_encoded)],
          localStorage := (\<lambda>k. None)(''auth:token'' \<mapsto> ''ltok'', ''auth:user'' \<mapsto> ''not-json'')\<rparr>"

definition stores ::
  "error + state \<Rightarrow> error + (string \<Rightarrow> string option) \<times> (string \<Rightarrow> string option) \<times> params" where
  "stores r = map_sum id (\<lambda>s. (localStorage s, sessionStorage s, cookies s)) r"

section \<open>Decimal strings\<close>

lemma digit_val_digit_char: "digit_val 10 (digit_char d) = Some (d mod 10)"
proof -
  have "{..<10::nat} = {0, 1, 2, 3, 4, 5, 6, 7, 8, 9}" by auto
  moreover have "d mod 10 \<in> {..<10}" by simp
  ultimately have "d mod 10 \<in> {0, 1, 2, 3, 4, 5, 6, 7, 8, 9}" by simp
  then show ?thesis
    by (auto simp: digit_char_def digit_val_def digit_table_def)
qed

lemma digit_char_plain:
  "\<not> is_ws (digit_char d)" "digit_char d \<noteq> CHR ''-''" "digit_char d \<noteq> CHR ''+''"
  "digit_char d \<noteq> CHR ''x''" "digit_char d \<noteq> CHR ''X''"
proof -
  have "digit_char d \<in> set ''0123456789''"
    unfolding digit_char_def by (rule nth_mem) simp
  then show "\<not> is_ws (digit_char d)" "digit_char d \<noteq> CHR ''-''" "digit_char d \<noteq> CHR ''+''"
    "digit_char d \<noteq> CHR ''x''" "digit_char d \<noteq> CHR ''X''"
    by (auto simp: is_ws_def)
qed

lemma nat_toString_digits: "c \<in> set (nat_toString n) \<Longrightarrow> \<exists>d. c = digit_char d"
proof (induction n rule: nat_toString.induct)
  case (1 n)
  then show ?case
    by (subst (asm) (2) nat_toString.simps) (auto split: if_splits)
qed

lemma nat_toString_nonempty: "nat_toString n \<noteq> []"
  by (subst nat_toString.simps) simp

lemma hd_nat_toString: "\<exists>d. hd (nat_toString n) = digit_char d"
  using nat_toString_digits [of "hd (nat_toString n)" n] nat_toString_nonempty [of n]
  by simp

lemma foldl_digits_value:
  "digits_value 10 (nat_toString n) = n"
proof (induction n rule: nat_toString.induct)
  case (1 n)
  show ?case
  proof (cases "n < 10")
    case True
    then show ?thesis
      by (subst nat_toString.simps) (simp add: digits_value_def digit_val_digit_char)
  next
    case False
    with 1 have "digits_value 10 (nat_toString (n div 10)) = n div 10" by simp
    with False show ?thesis
      by (subst nat_toString.simps) (simp add: digits_value_def digit_val_digit_char)
  qed
qed

lemma takeWhile_nat_toString:
  "takeWhile (\<lambda>c. digit_val 10 c \<noteq> None) (nat_toString n) = nat_toString n"
proof -
  have "\<forall>c \<in> set (nat_toString n). digit_val 10 c \<noteq> None"
    using nat_toString_digits digit_val_digit_char by fastforce
  then show ?thesis by (simp add: takeWhile_eq_all_conv)
qed

lemma nat_toString_not_hex:
  "take 2 (nat_toString n) \<noteq> ''0x''" "take 2 (nat_toString n) \<noteq> ''0X''"
proof -
  have *: "\<And>c. c \<in> set (take 2 (nat_toString n)) \<Longrightarrow> c \<noteq> CHR ''x'' \<and> c \<noteq> CHR ''X''"
    using nat_toString_digits digit_char_plain by (metis in_set_takeD)
  show "take 2 (nat_toString n) \<noteq> ''0x''"
  proof
    assume "take 2 (nat_toString n) = ''0x''"
    then have "CHR ''x'' \<in> set (take 2 (nat_toString n))" by simp
    with * show False by blast
  qed
  show "take 2 (nat_toString n) \<noteq> ''0X''"
  proof
    assume "take 2 (nat_toString n) = ''0X''"
    then have "CHR ''X'' \<in> set (take 2 (nat_toString n))" by simp
    with * show False by blast
  qed
qed

lemma parseInt_plain:
  assumes ne: "ds \<noteq> []"
    and dig: "takeWhile (\<lambda>c. digit_val 10 c \<noteq> None) ds = ds"
    and hd: "\<not> is_ws (hd ds)" "hd ds \<noteq> CHR ''-''" "hd ds \<noteq> CHR ''+''"
    and hex: "take 2 ds \<noteq> ''0x''" "take 2 ds \<noteq> ''0X''"
  shows "parseInt ds = Some (int (digits_value 10 ds))"
    and "parseInt (CHR ''-'' # ds) = Some (- int (digits_value 10 ds))"
proof -
  have ws: "dropWhile is_ws ds = ds"
    using ne hd(1) by (cases ds) auto
  have ws': "dropWhile is_ws (CHR ''-'' # ds) = CHR ''-'' # ds"
    by (simp add: is_ws_def)
  note dig' = dig [unfolded not_None_eq]
  show "parseInt ds = Some (int (digits_value 10 ds))"
    unfolding parseInt_def ws Let_def using ne hd hex by (simp add: dig')
  show "parseInt (CHR ''-'' # ds) = Some (- int (digits_value 10 ds))"
    unfolding parseInt_def ws' Let_def using ne hex by (simp add: dig')
qed

lemma parseInt_num_toString: "parseInt (num_toString i) = Some i"
proof -
  have shape: "parseInt (nat_toString n) = Some (int n)"
    "parseInt (CHR ''-'' # nat_toString n) = Some (- int n)" for n
  proof -
    obtain d where d: "hd (nat_toString n) = digit_char d" using hd_nat_toString by blast
    note p = parseInt_plain [OF nat_toString_nonempty [of n] takeWhile_nat_toString [of n],
        unfolded d, OF digit_char_plain(1,2,3) nat_toString_not_hex]
    show "parseInt (nat_toString n) = Some (int n)"
      using p(1) by (simp add: foldl_digits_value)
    show "parseInt (CHR ''-'' # nat_toString n) = Some (- int n)"
      using p(2) by (simp add: foldl_digits_value)
  qed
  show ?thesis
    by (cases "i < 0") (simp_all add: num_toString_def shape)
qed

section \<open>Subscribers and the notification pass\<close>

lemma registered_unsubscribe:
  "registered (unsubscribe l s) = filter (\<lambda>x. x \<noteq> l) (registered s)"
  by (simp add: registered_def unsubscribe_def)

lemma registered_subscribe:
  "valid_ref s \<Longrightarrow> registered (subscribe l s) = registered s @ [l]"
  by (simp add: registered_def subscribe_def valid_ref_def)

lemma valid_ref_subscribe: "valid_ref s \<Longrightarrow> valid_ref (subscribe l s)"
  by (simp add: subscribe_def valid_ref_def)

lemma valid_ref_unsubscribe: "valid_ref (unsubscribe l s)"
  by (simp add: unsubscribe_def valid_ref_def)

lemma grows_run_action:
  assumes "valid_ref s" "a < length (arrays s)"
  shows "grows a s (run_action s act) \<and> calls (run_action s act) = calls s"
proof (cases act)
  case (Subscribe l)
  then show ?thesis using assms
    by (auto simp: grows_def subscribe_def valid_ref_def nth_list_update)
next
  case (Unsubscribe l)
  then show ?thesis using assms
    by (auto simp: grows_def unsubscribe_def valid_ref_def nth_append)
qed

lemma grows_trans: "grows a s s' \<Longrightarrow> grows a s' s'' \<Longrightarrow> grows a s s''"
  by (auto simp: grows_def)

lemma grows_foldl:
  "valid_ref s \<Longrightarrow> a < length (arrays s) \<Longrightarrow>
   grows a s (foldl run_action s acts) \<and> calls (foldl run_action s acts) = calls s"
proof (induction acts arbitrary: s)
  case Nil
  then show ?case by (simp add: grows_def)
next
  case (Cons act acts)
  have step: "grows a s (run_action s act)" "calls (run_action s act) = calls s"
    using grows_run_action [OF Cons.prems] by simp_all
  then have "valid_ref (run_action s act)" "a < length (arrays (run_action s act))"
    by (simp_all add: grows_def)
  from Cons.IH [OF this] step show ?case
    by (auto intro: grows_trans)
qed

lemma invoke_props:
  assumes "valid_ref s" "a < length (arrays s)"
  shows "grows a s (invoke E l s)" "calls (invoke E l s) = calls s @ [(l, user s)]"
proof -
  let ?s0 = "s\<lparr>calls := calls s @ [(l, user s)]\<rparr>"
  have "valid_ref ?s0" "a < length (arrays ?s0)"
    using assms by (simp_all add: valid_ref_def)
  from grows_foldl [OF this, of "beh E l (user s)"]
  show "grows a s (invoke E l s)" "calls (invoke E l s) = calls s @ [(l, user s)]"
    by (simp_all add: invoke_def grows_def)
qed

lemma calls_forEach:
  "valid_ref s \<Longrightarrow> a < length (arrays s) \<Longrightarrow> prefix xs (arrays s ! a) \<Longrightarrow>
   k + n \<le> length xs \<Longrightarrow>
   calls (forEach E a k n s) = calls s @ map (\<lambda>l. (l, user s)) (take n (drop k xs))"
proof (induction n arbitrary: k s)
  case 0
  then show ?case by simp
next
  case (Suc n)
  let ?s' = "invoke E (arrays s ! a ! k) s"
  have k: "k < length xs" using Suc.prems by simp
  then have kk: "k < length (arrays s ! a)"
    using Suc.prems(3) by (metis order_less_le_trans prefix_length_le)
  have at: "arrays s ! a ! k = xs ! k"
    using Suc.prems(3) k by (auto simp: prefix_def nth_append)
  have g: "grows a s ?s'" and c: "calls ?s' = calls s @ [(xs ! k, user s)]"
    using invoke_props [OF Suc.prems(1,2)] at by simp_all
  have p: "prefix xs (arrays ?s' ! a)"
    using g Suc.prems(3) by (auto simp: grows_def)
  have "calls (forEach E a (Suc k) n ?s') =
        calls ?s' @ map (\<lambda>l. (l, user ?s')) (take n (drop (Suc k) xs))"
    using Suc.IH [of ?s' "Suc k"] g p Suc.prems(4) by (simp add: grows_def)
  moreover have "take (Suc n) (drop k xs) = xs ! k # take n (drop (Suc k) xs)"
    using k by (simp add: Cons_nth_drop_Suc [symmetric])
  ultimately show ?case using kk c g by (simp add: grows_def)
qed

lemma calls_notify:
  "valid_ref s \<Longrightarrow> calls (notify E s) = calls s @ map (\<lambda>l. (l, user s)) (registered s)"
  using calls_forEach [of s "listeners s" "arrays s ! listeners s" 0 "length (arrays s ! listeners s)" E]
  by (simp add: notify_def registered_def valid_ref_def)


lemma run_action_frame: "\<exists>ar li. run_action s act = s\<lparr>arrays := ar, listeners := li\<rparr>"
proof (cases act)
  case (Subscribe l)
  have "run_action s act = s\<lparr>arrays := arrays (subscribe l s), listeners := listeners s\<rparr>"
    using Subscribe by (simp add: subscribe_def)
  then show ?thesis by blast
next
  case (Unsubscribe l)
  then show ?thesis by (auto simp: unsubscribe_def)
qed

lemma foldl_run_action_frame:
  "\<exists>ar li. foldl run_action s acts = s\<lparr>arrays := ar, listeners := li\<rparr>"
proof (induction acts arbitrary: s)
  case Nil
  have "s = s\<lparr>arrays := arrays s, listeners := listeners s\<rparr>" by simp
  then show ?case by (metis foldl_Nil)
next
  case (Cons act acts)
  obtain a1 l1 where 1: "run_action s act = s\<lparr>arrays := a1, listeners := l1\<rparr>"
    using run_action_frame by blast
  obtain a2 l2 where
    "foldl run_action (run_action s act) acts = (run_action s act)\<lparr>arrays := a2, listeners := l2\<rparr>"
    using Cons.IH by blast
  with 1 have "foldl run_action s (act # acts) = s\<lparr>arrays := a2, listeners := l2\<rparr>"
    by simp
  then show ?case by blast
qed

lemma invoke_frame:
  "\<exists>ar li ca. invoke E l s = s\<lparr>arrays := ar, listeners := li, calls := ca\<rparr>"
proof -
  obtain ar li where
    "invoke E l s = (s\<lparr>calls := calls s @ [(l, user s)]\<rparr>)\<lparr>arrays := ar, listeners := li\<rparr>"
    unfolding invoke_def using foldl_run_action_frame by blast
  then have "invoke E l s = s\<lparr>arrays := ar, listeners := li, calls := calls s @ [(l, user s)]\<rparr>"
    by simp
  then show ?thesis by blast
qed

lemma forEach_frame:
  "\<exists>ar li ca. forEach E a k n s = s\<lparr>arrays := ar, listeners := li, calls := ca\<rparr>"
proof (induction n arbitrary: k s)
  case 0
  have "s = s\<lparr>arrays := arrays s, listeners := listeners s, calls := calls s\<rparr>" by simp
  then show ?case by (metis forEach.simps(1))
next
  case (Suc n)
  let ?s' = "if k < length (arrays s ! a) then invoke E (arrays s ! a ! k) s else s"
  obtain a1 l1 c1 where 1: "?s' = s\<lparr>arrays := a1, listeners := l1, calls := c1\<rparr>"
  proof (cases "k < length (arrays s ! a)")
    case True
    then show ?thesis using invoke_frame [of E "arrays s ! a ! k" s] that by auto
  next
    case False
    have "s = s\<lparr>arrays := arrays s, listeners := listeners s, calls := calls s\<rparr>" by simp
    with False show ?thesis using that by metis
  qed
  obtain a2 l2 c2 where
    "forEach E a (Suc k) n ?s' = ?s'\<lparr>arrays := a2, listeners := l2, calls := c2\<rparr>"
    using Suc.IH by blast
  with 1 have "forEach E a k (Suc n) s = s\<lparr>arrays := a2, listeners := l2, calls := c2\<rparr>"
    by simp
  then show ?case by blast
qed

lemma notify_frame:
  "\<exists>ar li ca. notify E s = s\<lparr>arrays := ar, listeners := li, calls := ca\<rparr>"
  unfolding notify_def by (rule forEach_frame)

lemma notify_fields [simp]:
  "user (notify E s) = user s"
  "tokenExpiryTime (notify E s) = tokenExpiryTime s"
  "config (notify E s) = config s"
  "localStorage (notify E s) = localStorage s"
  "sessionStorage (notify E s) = sessionStorage s"
  "cookies (notify E s) = cookies s"
  "location (notify E s) = location s"
  "windowPosted (notify E s) = windowPosted s"
  "channelPosted (notify E s) = channelPosted s"
  "shared (notify E s) = shared s"
  using notify_frame [of E s] by auto

lemma broadcast_fields [simp]:
  "user (broadcast E ty u s) = user s"
  "tokenExpiryTime (broadcast E ty u s) = tokenExpiryTime s"
  "config (broadcast E ty u s) = config s"
  "localStorage (broadcast E ty u s) = localStorage s"
  "sessionStorage (broadcast E ty u s) = sessionStorage s"
  "cookies (broadcast E ty u s) = cookies s"
  "location (broadcast E ty u s) = location s"
  "shared (broadcast E ty u s) = shared s"
  "calls (broadcast E ty u s) = calls s"
  "arrays (broadcast E ty u s) = arrays s"
  "listeners (broadcast E ty u s) = listeners s"
  by (simp_all add: broadcast_def Let_def)

lemma setCookie_fields [simp]:
  "user (setCookie E n v m s) = user s"
  "tokenExpiryTime (setCookie E n v m s) = tokenExpiryTime s"
  "config (setCookie E n v m s) = config s"
  "localStorage (setCookie E n v m s) = localStorage s"
  "sessionStorage (setCookie E n v m s) = sessionStorage s"
  "location (setCookie E n v m s) = location s"
  "windowPosted (setCookie E n v m s) = windowPosted s"
  "channelPosted (setCookie E n v m s) = channelPosted s"
  "shared (setCookie E n v m s) = shared s"
  "calls (setCookie E n v m s) = calls s"
  "arrays (setCookie E n v m s) = arrays s"
  "listeners (setCookie E n v m s) = listeners s"
  by (simp_all add: setCookie_def)

lemma login_fields:
  "user (login E now s usr token) = usr"
  "tokenExpiryTime (login E now s usr token) = ENum (now + tokenExpiry (config s))"
  "config (login E now s usr token) = config s"
  "localStorage (login E now s usr token) =
     (localStorage s)(''auth:token'' \<mapsto> token, ''auth:user'' \<mapsto> JSON_stringify E usr,
        ''auth:expiry'' \<mapsto> num_toString (now + tokenExpiry (config s)))"
  "sessionStorage (login E now s usr token) =
     (sessionStorage s)(''auth:token'' \<mapsto> token, ''auth:user'' \<mapsto> JSON_stringify E usr)"
  "location (login E now s usr token) = location s"
  "shared (login E now s usr token) = shared s"
  by (simp_all add: login_def Let_def)

lemma logout_fields:
  "user (logout E s) = JNull"
  "tokenExpiryTime (logout E s) = ENull"
  "config (logout E s) = config s"
  "localStorage (logout E s) =
     (localStorage s)(''auth:token'' := None, ''auth:user'' := None, ''auth:expiry'' := None)"
  "sessionStorage (logout E s) =
     (sessionStorage s)(''auth:token'' := None, ''auth:user'' := None)"
  "cookies (logout E s) =
     filter (\<lambda>p. fst p \<noteq> ''auth_user'') (filter (\<lambda>p. fst p \<noteq> ''auth_token'') (cookies s))"
  by (simp_all add: logout_def Let_def deleteCookie_def setCookie_def)

lemma construct_page: "construct env_demo no_config page = Inr fresh"
  by (simp add: construct_def restoreSession_def getCookie_def split_def page_def fresh_def
      resolve_config_def no_config_def env_demo_def or_else_def Let_def)

section \<open>Hand-off\<close>

lemma sp_get_delete: "m \<noteq> n \<Longrightarrow> sp_get (sp_delete n ps) m = sp_get ps m"
  by (induction ps) (auto simp: sp_get_def sp_delete_def)

lemma sp_get_set_same: "sp_get (sp_set n v ps) n = Some v"
  by (induction ps) (auto simp: sp_get_def)

lemma sp_get_set_other: "m \<noteq> n \<Longrightarrow> sp_get (sp_set n v ps) m = sp_get ps m"
proof (induction ps)
  case Nil
  then show ?case by (simp add: sp_get_def)
next
  case (Cons p ps)
  show ?case
  proof (cases "fst p = n")
    case True
    with Cons.prems sp_get_delete [of m n ps] show ?thesis
      by (cases p) (simp add: sp_get_def)
  next
    case False
    with Cons show ?thesis by (cases p) (simp add: sp_get_def)
  qed
qed

lemma sp_set_append: "n \<notin> fst ` set ps \<Longrightarrow> sp_set n v ps = ps @ [(n, v)]"
  by (induction ps) auto

lemma query_with_auth_params:
  "sp_get (query (with_auth_params tok us st u)) ''auth_token'' = Some tok"
  "sp_get (query (with_auth_params tok us st u)) ''auth_user'' = Some us"
  "sp_get (query (with_auth_params tok us st u)) ''auth_timestamp'' = Some st"
  by (simp_all add: with_auth_params_def sp_get_set_same sp_get_set_other)

lemma isLoggedIn_active:
  "truthy (user s) \<Longrightarrow> \<not> expired (tokenExpiryTime s) now \<Longrightarrow> isLoggedIn E now s = (True, s)"
  by (simp add: isLoggedIn_def)

lemma isLoggedIn_inactive:
  "\<not> (truthy (user s) \<and> \<not> expired (tokenExpiryTime s) now) \<Longrightarrow> \<not> fst (isLoggedIn E now s)"
  by (auto simp: isLoggedIn_def)

lemma num_toString_demo: "num_toString 1700000000000 = ''1700000000000''"
  by (simp add: num_toString_def nat_toString.simps digit_char_def)

lemma signed_in_fields:
  "user signed_in = alice"
  "tokenExpiryTime signed_in = ENum 1700086390000"
  "getToken signed_in = Some ''tok-1''"
  by (simp_all add: signed_in_def login_fields getToken_def or_else_def fresh_def)

lemma handoff_url_demo:
  "with_auth_params ''tok-1'' alice_json ''1700000000000'' target_url = handoff_url"
  by (simp add: with_auth_params_def target_url_def handoff_url_def)

lemma landing_stamp: "sp_get (query (location landing)) ''auth_timestamp'' = Some ''1700000000000''"
  by (simp add: landing_def handoff_url_def sp_get_def)

section \<open>Restoration and inbound notifications\<close>

lemma getCookie_cookies: "cookies s' = cookies s \<Longrightarrow> getCookie E s' n = getCookie E s n"
  by (simp add: getCookie_def)

lemma getCookie_mixed:
  "getCookie env_demo mixed_page ''auth_token'' = Inr (Some ''tok-9'')"
  "getCookie env_demo mixed_page ''auth_user'' = Inr None"
  by (simp_all add: getCookie_def mixed_page_def page_def split_def env_demo_def
      alice_encoded_def)

lemma getCookie_empty_jar: "cookies s = [] \<Longrightarrow> getCookie E s n = Inr None"
  by (simp add: getCookie_def split_def)

lemma construct_recovers_from_corrupt_subject:
  assumes "cookies s0 = []"
    and "localStorage s0 ''auth:token'' = Some tok" "tok \<noteq> []"
    and "localStorage s0 ''auth:user'' = Some us" "us \<noteq> []"
    and "JSON_parse E us = None"
  shows "\<exists>s'. construct E c s0 = Inr s' \<and> user s' = JNull \<and>
           \<not> fst (isLoggedIn E now s') \<and>
           localStorage s' ''auth:token'' = None \<and> localStorage s' ''auth:user'' = None"
proof -
  let ?s = "s0\<lparr>user := JNull, arrays := arrays s0 @ [[]], listeners := length (arrays s0),
      tokenExpiryTime := ENull, config := resolve_config E c\<rparr>"
  have g: "getCookie E ?s n = Inr None" for n
    using assms(1) by (simp add: getCookie_empty_jar)
  have "construct E c s0 = Inr (logout E ?s)"
    unfolding construct_def restoreSession_def g using assms by (simp add: or_else_def)
  then show ?thesis
    by (simp add: logout_fields isLoggedIn_def)
qed

lemma construct_corrupt_page:
  "\<exists>s'. construct env_demo no_config corrupt_page = Inr s' \<and> user s' = JNull \<and>
     localStorage s' ''auth:token'' = None \<and> localStorage s' ''auth:user'' = None"
proof -
  have "cookies corrupt_page = []" "localStorage corrupt_page ''auth:token'' = Some ''tok-1''"
    "localStorage corrupt_page ''auth:user'' = Some ''not-json''"
    "JSON_parse env_demo ''not-json'' = None"
    by (simp_all add: corrupt_page_def page_def env_demo_def alice_json_def)
  from construct_recovers_from_corrupt_subject [OF this(1,2) _ this(3) _ this(4), of no_config 0]
  show ?thesis by auto
qed

lemma toUpperCase_login: "toUpperCase ''login'' = ''LOGIN''"
  by (simp add: toUpperCase_def upper_table_def)

lemma outbound_notify: "outbound (notify E s) = outbound s"
  by (simp add: outbound_def)

lemma outbound_login:
  "outbound (login E now s usr token) =
     (windowPosted s @ [Message ''AUTH_LOGIN'' usr None],
      channelPosted s @ (if channelSupported E then [Message ''login'' usr None] else []),
      shared s)"
  by (simp add: outbound_def login_def Let_def broadcast_def toUpperCase_login)

lemma outbound_on_channel_message: "outbound (on_channel_message E s m) = outbound s"
  by (simp add: on_channel_message_def outbound_notify) (simp add: outbound_def)

lemma outbound_on_window_message: "outbound (on_window_message E s m) = outbound s"
  by (simp add: on_window_message_def outbound_notify) (simp add: outbound_def)

lemma outbound_on_storage: "outbound (on_storage E s k nv ov) = outbound s"
  by (simp add: on_storage_def outbound_notify) (simp add: outbound_def)

lemma on_share_message_other: "mtype m \<noteq> ''AUTH_SHARE'' \<Longrightarrow> on_share_message E now s m = s"
  by (simp add: on_share_message_def)

lemma on_share_message_accept:
  "crossOriginEnabled (config s) \<Longrightarrow> mtype m = ''AUTH_SHARE'' \<Longrightarrow> mauth m = Some a \<Longrightarrow>
   now - sh_timestamp a < 5 * 60 * 1000 \<Longrightarrow>
   on_share_message E now s m = login E now s (sh_user a) (sh_token a)"
  by (simp add: on_share_message_def)

lemma applied_notify:
  "valid_ref s \<Longrightarrow>
   user (notify E (s\<lparr>user := u\<rparr>)) = u \<and>
   calls (notify E (s\<lparr>user := u\<rparr>)) = calls s @ map (\<lambda>l. (l, u)) (registered s)"
  using calls_notify [of "s\<lparr>user := u\<rparr>" E] by (simp add: valid_ref_def registered_def)

text \<open>The reference stays valid through every operation, from construction on.\<close>

lemma valid_ref_forEach:
  "valid_ref s \<Longrightarrow> a < length (arrays s) \<Longrightarrow>
   valid_ref (forEach E a k n s) \<and> a < length (arrays (forEach E a k n s))"
proof (induction n arbitrary: k s)
  case 0
  then show ?case by simp
next
  case (Suc n)
  let ?s' = "if k < length (arrays s ! a) then invoke E (arrays s ! a ! k) s else s"
  have "valid_ref ?s' \<and> a < length (arrays ?s')"
    using Suc.prems invoke_props(1) [OF Suc.prems, of E "arrays s ! a ! k"]
    by (simp add: grows_def)
  then show ?case using Suc.IH [of ?s' "Suc k"] by simp
qed

lemma valid_ref_notify: "valid_ref s \<Longrightarrow> valid_ref (notify E s)"
  using valid_ref_forEach [of s "listeners s" E 0 "length (arrays s ! listeners s)"]
  by (simp add: notify_def valid_ref_def)

lemma valid_ref_logout: "valid_ref s \<Longrightarrow> valid_ref (logout E s)"
proof -
  assume v: "valid_ref s"
  let ?s5 = "deleteCookie E ''auth_user'' (deleteCookie E ''auth_token''
      (s\<lparr>user := JNull, tokenExpiryTime := ENull,
         localStorage := (localStorage s)
           (''auth:token'' := None, ''auth:user'' := None, ''auth:expiry'' := None),
         sessionStorage := (sessionStorage s)(''auth:token'' := None, ''auth:user'' := None)\<rparr>))"
  have "valid_ref ?s5" using v by (simp add: valid_ref_def deleteCookie_def)
  then have "valid_ref (notify E ?s5)" by (rule valid_ref_notify)
  then show ?thesis by (simp add: logout_def Let_def valid_ref_def)
qed

lemma valid_ref_login: "valid_ref s \<Longrightarrow> valid_ref (login E now s usr token)"
proof -
  assume v: "valid_ref s"
  let ?s4 = "setCookie E ''auth_user'' (JSON_stringify E usr) (tokenExpiry (config s))
      (setCookie E ''auth_token'' token (tokenExpiry (config s))
      (s\<lparr>user := usr, tokenExpiryTime := ENum (now + tokenExpiry (config s)),
         localStorage := (localStorage s)
                  (''auth:token'' \<mapsto> token,
                   ''auth:user'' \<mapsto> JSON_stringify E usr,
                   ''auth:expiry'' \<mapsto> num_toString (now + tokenExpiry (config s)))\<rparr>))"
  have "valid_ref ?s4" using v by (simp add: valid_ref_def)
  then have "valid_ref (notify E ?s4)" by (rule valid_ref_notify)
  then show ?thesis by (simp add: login_def Let_def valid_ref_def)
qed

lemma valid_ref_construct: "construct E c s0 = Inr s \<Longrightarrow> valid_ref s"
proof -
  assume r: "construct E c s0 = Inr s"
  let ?i = "s0\<lparr>user := JNull, arrays := arrays s0 @ [[]], listeners := length (arrays s0),
      tokenExpiryTime := ENull, config := resolve_config E c\<rparr>"
  have v: "valid_ref ?i" by (simp add: valid_ref_def)
  have l: "valid_ref (logout E ?i)" using v by (rule valid_ref_logout)
  from r show ?thesis
    unfolding construct_def restoreSession_def
    using v l
    by (auto simp: Let_def valid_ref_def split: sum.splits if_splits option.splits)
qed

lemma getCookie_both:
  "getCookie env_demo both_page ''auth_token'' = Inr (Some ''ctok'')"
  "getCookie env_demo both_page ''auth_user'' = Inr (Some alice_json)"
  by (simp_all add: getCookie_def both_page_def page_def split_def env_demo_def
      alice_encoded_def)

lemma restored_construct:
  assumes "getCookie E s0 ''auth_token'' = Inr ct" and "getCookie E s0 ''auth_user'' = Inr cu"
  shows "restored (construct E c s0) =
     (if truthy_str (or_else ct (localStorage s0 ''auth:token'')) \<and>
         truthy_str (or_else cu (localStorage s0 ''auth:user''))
      then (case JSON_parse E (the (or_else cu (localStorage s0 ''auth:user''))) of
              None \<Rightarrow> Inr (JNull, None, ENull)
            | Some usr \<Rightarrow> Inr (usr, getToken s0, stored_deadline s0))
      else Inr (JNull, getToken s0, ENull))"
proof -
  let ?i = "s0\<lparr>user := JNull, arrays := arrays s0 @ [[]], listeners := length (arrays s0),
      tokenExpiryTime := ENull, config := resolve_config E c\<rparr>"
  have g: "getCookie E ?i ''auth_token'' = Inr ct" "getCookie E ?i ''auth_user'' = Inr cu"
    using assms by (simp_all add: getCookie_cookies [of ?i s0])
  have out: "getToken (logout E ?i) = None"
    by (simp add: getToken_def logout_fields or_else_def)
  show ?thesis
    unfolding construct_def restoreSession_def g
    by (simp add: restored_def Let_def getUser_def getToken_def stored_deadline_def
        logout_fields or_else_def split: option.splits)
qed

lemma storage_construct:
  assumes "getCookie E s0 ''auth_token'' = Inr ct" and "getCookie E s0 ''auth_user'' = Inr cu"
    and "JSON_parse E (the (or_else cu (localStorage s0 ''auth:user''))) \<noteq> None \<or>
         \<not> truthy_str (or_else ct (localStorage s0 ''auth:token'')) \<or>
         \<not> truthy_str (or_else cu (localStorage s0 ''auth:user''))"
  shows "map_sum id (\<lambda>s. (localStorage s, sessionStorage s, cookies s)) (construct E c s0)
         = Inr (localStorage s0, sessionStorage s0, cookies s0)"
proof -
  let ?i = "s0\<lparr>user := JNull, arrays := arrays s0 @ [[]], listeners := length (arrays s0),
      tokenExpiryTime := ENull, config := resolve_config E c\<rparr>"
  have g: "getCookie E ?i ''auth_token'' = Inr ct" "getCookie E ?i ''auth_user'' = Inr cu"
    using assms by (simp_all add: getCookie_cookies [of ?i s0])
  show ?thesis
    unfolding construct_def restoreSession_def g using assms(3)
    by (auto simp: Let_def split: option.splits)
qed

lemma construct_cookie_error:
  "getCookie E s0 ''auth_token'' = Inl e \<Longrightarrow> construct E c s0 = Inl e"
  "getCookie E s0 ''auth_token'' = Inr ct \<Longrightarrow> getCookie E s0 ''auth_user'' = Inl e \<Longrightarrow>
     construct E c s0 = Inl e"
proof -
  let ?i = "s0\<lparr>user := JNull, arrays := arrays s0 @ [[]], listeners := length (arrays s0),
      tokenExpiryTime := ENull, config := resolve_config E c\<rparr>"
  have g: "getCookie E ?i n = getCookie E s0 n" for n
    by (simp add: getCookie_cookies [of ?i s0])
  show "getCookie E s0 ''auth_token'' = Inl e \<Longrightarrow> construct E c s0 = Inl e"
    by (simp add: construct_def restoreSession_def g)
  show "getCookie E s0 ''auth_token'' = Inr ct \<Longrightarrow> getCookie E s0 ''auth_user'' = Inl e \<Longrightarrow>
     construct E c s0 = Inl e"
    by (simp add: construct_def restoreSession_def g)
qed

section \<open>Claims\<close>

text \<open>
  C1. With lifetime \<open>L\<close> configured, after \<open>login(subject, token)\<close> at \<open>t0\<close> the call
  \<open>isLoggedIn()\<close> at \<open>t0 + L - 1\<close> returns true and changes nothing; at \<open>t0 + L + 1\<close> it
  returns false and has logged out: \<open>getUser()\<close> and \<open>getToken()\<close> are absent, the deadline
  is cleared and the stored and cookie copies are gone. The subject is a \<open>User\<close> object
  (truthy), the clock is not negative and the lifetime is positive.
\<close>

theorem login_then_expiry:
  assumes "truthy subject" and "0 \<le> t0" and "0 < L" and "tokenExpiry (config s) = L"
  shows "isLoggedIn E (t0 + L - 1) (login E t0 s subject token)
           = (True, login E t0 s subject token) \<and>
         fst (isLoggedIn E (t0 + L + 1) (login E t0 s subject token)) = False \<and>
         getUser (snd (isLoggedIn E (t0 + L + 1) (login E t0 s subject token))) = JNull \<and>
         tokenExpiryTime (snd (isLoggedIn E (t0 + L + 1) (login E t0 s subject token))) = ENull \<and>
         getToken (snd (isLoggedIn E (t0 + L + 1) (login E t0 s subject token))) = None \<and>
         localStorage (snd (isLoggedIn E (t0 + L + 1) (login E t0 s subject token))) ''auth:user'' = None \<and>
         localStorage (snd (isLoggedIn E (t0 + L + 1) (login E t0 s subject token))) ''auth:expiry'' = None \<and>
         sessionStorage (snd (isLoggedIn E (t0 + L + 1) (login E t0 s subject token))) ''auth:user'' = None \<and>
         sp_get (cookies (snd (isLoggedIn E (t0 + L + 1) (login E t0 s subject token)))) ''auth_token'' = None \<and>
         sp_get (cookies (snd (isLoggedIn E (t0 + L + 1) (login E t0 s subject token)))) ''auth_user'' = None"
proof -
  let ?s1 = "login E t0 s subject token"
  have before: "isLoggedIn E (t0 + L - 1) ?s1 = (True, ?s1)"
    using assms by (simp add: isLoggedIn_def login_fields)
  have after: "isLoggedIn E (t0 + L + 1) ?s1 = (False, logout E ?s1)"
    using assms by (simp add: isLoggedIn_def login_fields)
  have ck: "map_of (filter (\<lambda>p. fst p \<noteq> ''auth_token'' \<and> fst p \<noteq> ''auth_user'') ps) n = None"
    if "n = ''auth_token'' \<or> n = ''auth_user''" for n :: string and ps :: params
    using that by (induction ps) auto
  show ?thesis
    unfolding before after
    by (simp add: logout_fields getUser_def getToken_def or_else_def sp_get_def ck)
qed

text \<open>On the constructed example page, with the default lifetime of 24 hours.\<close>

theorem login_then_expiry_witness:
  "truthy alice \<and> tokenExpiry (config fresh) = 86400000 \<and>
   fst (isLoggedIn env_demo (1700000000000 + 86400000 - 1)
          (login env_demo 1700000000000 fresh alice ''tok-1'')) \<and>
   \<not> fst (isLoggedIn env_demo (1700000000000 + 86400000 + 1)
          (login env_demo 1700000000000 fresh alice ''tok-1'')) \<and>
   getUser (snd (isLoggedIn env_demo (1700000000000 + 86400000 + 1)
          (login env_demo 1700000000000 fresh alice ''tok-1''))) = JNull"
proof -
  have a: "truthy alice" by (simp add: alice_def)
  have c: "tokenExpiry (config fresh) = 86400000" by (simp add: fresh_def)
  show ?thesis
    using login_then_expiry [OF a _ _ c, of 1700000000000 env_demo "''tok-1''"] a c
    by simp
qed

text \<open>
  C7. \<open>login\<close> calls every registration that the manager holds when it is called exactly
  once, in registration order, each with the new subject, and nothing else; this holds
  whatever the callbacks do to the list while the pass runs (de-registering themselves or
  others, registering new functions), since \<open>beh E\<close> is arbitrary. The pass is the one
  inside the call of \<open>login\<close>; callbacks return normally.
\<close>

theorem login_invokes_each_subscriber_once:
  assumes "valid_ref s"
  shows "calls (login E now s usr token) = calls s @ map (\<lambda>l. (l, usr)) (registered s)"
proof -
  let ?s4 = "setCookie E ''auth_user'' (JSON_stringify E usr) (tokenExpiry (config s))
      (setCookie E ''auth_token'' token (tokenExpiry (config s))
      (s\<lparr>user := usr, tokenExpiryTime := ENum (now + tokenExpiry (config s)),
         localStorage := (localStorage s)
                  (''auth:token'' \<mapsto> token,
                   ''auth:user'' \<mapsto> JSON_stringify E usr,
                   ''auth:expiry'' \<mapsto> num_toString (now + tokenExpiry (config s)))\<rparr>))"
  have v: "valid_ref ?s4" using assms by (simp add: valid_ref_def)
  have "calls (login E now s usr token) = calls (notify E ?s4)"
    by (simp add: login_def Let_def)
  also have "\<dots> = calls ?s4 @ map (\<lambda>l. (l, user ?s4)) (registered ?s4)"
    by (rule calls_notify [OF v])
  also have "\<dots> = calls s @ map (\<lambda>l. (l, usr)) (registered s)"
    by (simp add: registered_def)
  finally show ?thesis .
qed

text \<open>
  Three subscribers, the first of which de-registers itself and the third one during its
  callback: all three are called, once each, in order.
\<close>

theorem login_invokes_each_subscriber_once_witness:
  "valid_ref (subscribe 3 (subscribe 2 (subscribe 1 fresh))) \<and>
   beh env_demo 1 alice = [Unsubscribe 1, Unsubscribe 3] \<and>
   calls (login env_demo 1700000000000 (subscribe 3 (subscribe 2 (subscribe 1 fresh))) alice ''tok-1'')
     = [(1, alice), (2, alice), (3, alice)]"
proof -
  have v: "valid_ref fresh" by (simp add: valid_ref_def fresh_def page_def)
  have r: "registered fresh = []" by (simp add: registered_def fresh_def page_def)
  have c: "calls fresh = []" by (simp add: fresh_def page_def)
  let ?s = "subscribe 3 (subscribe 2 (subscribe 1 fresh))"
  have v3: "valid_ref ?s" using v by (simp add: valid_ref_subscribe)
  have r3: "registered ?s = [1, 2, 3]"
    using v r by (simp add: registered_subscribe valid_ref_subscribe)
  have c3: "calls ?s = []" using c by (simp add: subscribe_def)
  show ?thesis
    using login_invokes_each_subscriber_once [OF v3, of env_demo 1700000000000 alice "''tok-1''"]
      v3 r3 c3
    by (simp add: env_demo_def)
qed

text \<open>
  C10. The handle of \<open>subscribe(callback)\<close> removes every registration of that function
  and keeps the others in order, so after a double registration either handle (they are
  the same closure) removes both; invoking it again, or when the function is not
  registered, leaves the list as it is.
\<close>

theorem unsubscribe_removes_every_registration:
  "registered (unsubscribe l s) = filter (\<lambda>x. x \<noteq> l) (registered s) \<and>
   l \<notin> set (registered (unsubscribe l s)) \<and>
   registered (unsubscribe l (unsubscribe l s)) = registered (unsubscribe l s) \<and>
   (l \<notin> set (registered s) \<longrightarrow> registered (unsubscribe l s) = registered s) \<and>
   (valid_ref s \<longrightarrow>
      registered (unsubscribe l (subscribe l (subscribe l s))) =
      filter (\<lambda>x. x \<noteq> l) (registered s))"
proof -
  have twice: "valid_ref s \<Longrightarrow> registered (subscribe l (subscribe l s)) = registered s @ [l, l]"
    by (simp add: registered_subscribe valid_ref_subscribe)
  have noop: "l \<notin> set (registered s) \<Longrightarrow> filter (\<lambda>x. x \<noteq> l) (registered s) = registered s"
    by (induction "registered s") (auto simp: filter_id_conv)
  show ?thesis
    using twice noop by (simp add: registered_unsubscribe)
qed

text \<open>The list \<open>[7, 5, 7]\<close> becomes \<open>[5]\<close> and stays \<open>[5]\<close>.\<close>

theorem unsubscribe_removes_every_registration_witness:
  "registered (subscribe 7 (subscribe 5 (subscribe 7 fresh))) = [7, 5, 7] \<and>
   registered (unsubscribe 7 (subscribe 7 (subscribe 5 (subscribe 7 fresh)))) = [5] \<and>
   registered (unsubscribe 7 (unsubscribe 7 (subscribe 7 (subscribe 5 (subscribe 7 fresh))))) = [5] \<and>
   valid_ref fresh \<and>
   registered (unsubscribe 7 (subscribe 7 (subscribe 7 fresh))) = [] \<and>
   9 \<notin> set (registered (subscribe 5 fresh)) \<and>
   registered (unsubscribe 9 (subscribe 5 fresh)) = [5]"
proof -
  have v: "valid_ref fresh" by (simp add: valid_ref_def fresh_def page_def)
  have r: "registered fresh = []" by (simp add: registered_def fresh_def page_def)
  have a: "registered (subscribe 7 (subscribe 5 (subscribe 7 fresh))) = [7, 5, 7]"
    using v r by (simp add: registered_subscribe valid_ref_subscribe)
  have b: "registered (subscribe 5 fresh) = [5]"
    using v r by (simp add: registered_subscribe)
  show ?thesis
    using unsubscribe_removes_every_registration [of 7 fresh]
      unsubscribe_removes_every_registration [of 7 "subscribe 7 (subscribe 5 (subscribe 7 fresh))"]
      unsubscribe_removes_every_registration [of 9 "subscribe 5 fresh"]
      v r a b
    by simp
qed

text \<open>
  C5. A hand-off payload whose timestamp lies more than five minutes before the current
  instant is rejected on both paths: \<open>processAuthFromUrl\<close> returns false and leaves the
  whole state as it was, and the \<open>AUTH_SHARE\<close> listener, alone or followed by the other
  message listener, leaves the whole state as it was. No login happens: the state,
  which records every callback call and every broadcast, is the same.
\<close>

theorem stale_handoff_rejected:
  "(sp_get (query (location s)) ''auth_timestamp'' = Some stamp \<and> parseInt stamp = Some t \<and>
    5 * 60 * 1000 < now - t \<longrightarrow> processAuthFromUrl E now s = (False, s)) \<and>
   (mtype m = ''AUTH_SHARE'' \<and> mauth m = Some a \<and> 5 * 60 * 1000 < now - sh_timestamp a \<longrightarrow>
      on_share_message E now s m = s \<and> receive E now s (Window m) = s)"
proof -
  have url: "processAuthFromUrl E now s = (False, s)"
    if "sp_get (query (location s)) ''auth_timestamp'' = Some stamp" "parseInt stamp = Some t"
      "5 * 60 * 1000 < now - t"
    using that by (simp add: processAuthFromUrl_def Let_def split: option.splits)
  have msg: "on_share_message E now s m = s"
    if "mauth m = Some a" "5 * 60 * 1000 < now - sh_timestamp a"
    using that by (simp add: on_share_message_def)
  have win: "receive E now s (Window m) = s"
    if "mtype m = ''AUTH_SHARE''" "mauth m = Some a" "5 * 60 * 1000 < now - sh_timestamp a"
    using that msg by (simp add: on_window_message_def)
  show ?thesis using url msg win by blast
qed

text \<open>The example hand-off URL read 300001 ms after its timestamp, and the same envelope.\<close>

theorem stale_handoff_rejected_witness:
  "sp_get (query (location landing)) ''auth_timestamp'' = Some ''1700000000000'' \<and>
   parseInt ''1700000000000'' = Some 1700000000000 \<and>
   processAuthFromUrl env_demo 1700000300001 landing = (False, landing) \<and>
   on_share_message env_demo 1700000300001 fresh
      (Message ''AUTH_SHARE'' JUndefined (Some (Share ''tok-1'' alice 1700000000000))) = fresh \<and>
   receive env_demo 1700000300001 fresh
      (Window (Message ''AUTH_SHARE'' JUndefined (Some (Share ''tok-1'' alice 1700000000000)))) = fresh"
proof -
  have p: "parseInt ''1700000000000'' = Some 1700000000000"
    using parseInt_num_toString [of 1700000000000] by (simp add: num_toString_demo)
  let ?m = "Message ''AUTH_SHARE'' JUndefined (Some (Share ''tok-1'' alice 1700000000000))"
  have u: "processAuthFromUrl env_demo 1700000300001 landing = (False, landing)"
    using stale_handoff_rejected [of landing "''1700000000000''" 1700000000000 1700000300001
        env_demo ?m "Share ''tok-1'' alice 1700000000000"] landing_stamp p
    by simp
  have m: "on_share_message env_demo 1700000300001 fresh ?m = fresh \<and>
      receive env_demo 1700000300001 fresh (Window ?m) = fresh"
    using stale_handoff_rejected [of fresh "''1700000000000''" 1700000000000 1700000300001
        env_demo ?m "Share ''tok-1'' alice 1700000000000"]
    by (simp del: receive.simps)
  show ?thesis using landing_stamp p u m by (simp del: receive.simps)
qed

text \<open>
  C6. From an active, unexpired session with subject \<open>user s\<close> and token \<open>T\<close>,
  \<open>generateAuthUrl\<close> returns the serialised URL \<open>v\<close>; in any context \<open>f\<close> whose location
  is the parse of that string, within the replay window, \<open>processAuthFromUrl\<close> returns
  true and afterwards \<open>getUser()\<close> is the subject and \<open>getToken()\<close> the token. The platform
  facts used are hypotheses: parsing the serialised URL gives the URL back, parsing the
  JSON text of the subject gives the subject back, and that text is not empty. The
  timestamp's way through \<open>toString\<close> and \<open>parseInt\<close> is proved.
\<close>

theorem handoff_round_trip:
  assumes active: "truthy (user s)" "\<not> expired (tokenExpiryTime s) now"
      "getToken s = Some T" "T \<noteq> []"
    and target: "URL_parse E target = Some u"
    and v: "v = with_auth_params T (JSON_stringify E (user s)) (num_toString now) u"
    and opened: "URL_parse E' (URL_toString E v) = Some (location f)"
    and url_rt: "URL_parse E' (URL_toString E v) = Some v"
    and json_rt: "JSON_parse E' (JSON_stringify E (user s)) = Some (user s)"
    and json_ne: "JSON_stringify E (user s) \<noteq> []"
    and window: "now' - now < 5 * 60 * 1000"
  shows "generateAuthUrl E now s target = (Inr (URL_toString E v), s) \<and>
         fst (processAuthFromUrl E' now' f) \<and>
         getUser (snd (processAuthFromUrl E' now' f)) = getUser s \<and>
         getToken (snd (processAuthFromUrl E' now' f)) = getToken s"
proof -
  have enc: "generateAuthUrl E now s target = (Inr (URL_toString E v), s)"
    using active target v by (simp add: generateAuthUrl_def isLoggedIn_active getUser_def)
  have loc: "location f = v" using opened url_rt by simp
  have q: "sp_get (query (location f)) ''auth_token'' = Some T"
    "sp_get (query (location f)) ''auth_user'' = Some (JSON_stringify E (user s))"
    "sp_get (query (location f)) ''auth_timestamp'' = Some (num_toString now)"
    unfolding loc v by (rule query_with_auth_params)+
  have stamp: "num_toString now \<noteq> []"
    by (simp add: num_toString_def nat_toString_nonempty)
  let ?f1 = "login E' now' f (user s) T"
  have dec: "processAuthFromUrl E' now' f
      = (True, ?f1\<lparr>location := without_auth_params (location ?f1)\<rparr>)"
    using active(4) json_ne stamp json_rt window
    by (simp add: processAuthFromUrl_def q parseInt_num_toString Let_def)
  show ?thesis
    using enc active(3,4)
    by (simp add: dec getUser_def getToken_def login_fields or_else_def)
qed

text \<open>The example session handed to the receiving page one minute later.\<close>

theorem handoff_round_trip_witness:
  "generateAuthUrl env_demo 1700000000000 signed_in ''https://app-b.example/landing''
     = (Inr handoff_href, signed_in) \<and>
   URL_parse env_demo handoff_href = Some (location landing) \<and>
   fst (processAuthFromUrl env_demo 1700000060000 landing) \<and>
   getUser (snd (processAuthFromUrl env_demo 1700000060000 landing)) = alice \<and>
   getToken (snd (processAuthFromUrl env_demo 1700000060000 landing)) = Some ''tok-1''"
proof -
  have a: "truthy (user signed_in)" "\<not> expired (tokenExpiryTime signed_in) 1700000000000"
    "getToken signed_in = Some ''tok-1''" "''tok-1'' \<noteq> []"
    by (simp_all add: signed_in_fields alice_def)
  have p: "URL_parse env_demo ''https://app-b.example/landing'' = Some target_url"
    by (simp add: env_demo_def handoff_href_def)
  have j: "JSON_stringify env_demo (user signed_in) = alice_json"
    by (simp add: env_demo_def signed_in_fields)
  have v: "handoff_url = with_auth_params ''tok-1'' (JSON_stringify env_demo (user signed_in))
      (num_toString 1700000000000) target_url"
    by (simp add: j num_toString_demo handoff_url_demo)
  have t: "URL_toString env_demo handoff_url = handoff_href"
    by (simp add: env_demo_def)
  have o: "URL_parse env_demo (URL_toString env_demo handoff_url) = Some (location landing)"
    by (simp add: t) (simp add: env_demo_def handoff_href_def landing_def)
  have r: "URL_parse env_demo (URL_toString env_demo handoff_url) = Some handoff_url"
    by (simp add: t) (simp add: env_demo_def handoff_href_def)
  have jr: "JSON_parse env_demo (JSON_stringify env_demo (user signed_in)) = Some (user signed_in)"
    by (simp add: j signed_in_fields) (simp add: env_demo_def)
  have jn: "JSON_stringify env_demo (user signed_in) \<noteq> []"
    by (simp add: j alice_json_def)
  have w: "(1700000060000::int) - 1700000000000 < 5 * 60 * 1000" by simp
  show ?thesis
    using handoff_round_trip [OF a p v o r jr jn w] o
    by (simp add: t getUser_def signed_in_fields)
qed

text \<open>
  C8. With a truthy subject, no deadline passed and a non-empty stored token,
  \<open>generateAuthUrl\<close> on a parsable target returns that URL with the three parameters set
  to the token, the JSON text of the subject and the decimal timestamp (appended in this
  order when the target has none of them), and the state is unchanged. Without subject or
  past the deadline it fails with the must-be-logged-in error; with a subject but no
  token it fails with the invalid-state error; it never returns a URL then.
\<close>

theorem generateAuthUrl_result:
  "(truthy (user s) \<and> \<not> expired (tokenExpiryTime s) now \<and> getToken s = Some token \<and>
    token \<noteq> [] \<and> URL_parse E target = Some u \<longrightarrow>
      generateAuthUrl E now s target =
        (Inr (URL_toString E
               (with_auth_params token (JSON_stringify E (user s)) (num_toString now) u)), s) \<and>
      sp_get (query (with_auth_params token (JSON_stringify E (user s)) (num_toString now) u))
        ''auth_token'' = Some token \<and>
      sp_get (query (with_auth_params token (JSON_stringify E (user s)) (num_toString now) u))
        ''auth_user'' = Some (JSON_stringify E (user s)) \<and>
      sp_get (query (with_auth_params token (JSON_stringify E (user s)) (num_toString now) u))
        ''auth_timestamp'' = Some (num_toString now) \<and>
      base (with_auth_params token (JSON_stringify E (user s)) (num_toString now) u) = base u \<and>
      fragment (with_auth_params token (JSON_stringify E (user s)) (num_toString now) u)
        = fragment u \<and>
      ({''auth_token'', ''auth_user'', ''auth_timestamp''} \<inter> fst ` set (query u) = {} \<longrightarrow>
         query (with_auth_params token (JSON_stringify E (user s)) (num_toString now) u) =
           query u @ [(''auth_token'', token), (''auth_user'', JSON_stringify E (user s)),
                      (''auth_timestamp'', num_toString now)])) \<and>
   (\<not> (truthy (user s) \<and> \<not> expired (tokenExpiryTime s) now) \<longrightarrow>
      fst (generateAuthUrl E now s target) = Inl NotLoggedIn) \<and>
   (truthy (user s) \<and> \<not> expired (tokenExpiryTime s) now \<and> \<not> truthy_str (getToken s) \<longrightarrow>
      generateAuthUrl E now s target = (Inl InvalidAuthState, s))"
proof -
  let ?v = "with_auth_params token (JSON_stringify E (user s)) (num_toString now) u"
  have ok: "generateAuthUrl E now s target = (Inr (URL_toString E ?v), s)"
    if "truthy (user s)" "\<not> expired (tokenExpiryTime s) now" "getToken s = Some token"
      "token \<noteq> []" "URL_parse E target = Some u"
    using that by (simp add: generateAuthUrl_def isLoggedIn_active getUser_def)
  have app: "query ?v = query u @ [(''auth_token'', token),
      (''auth_user'', JSON_stringify E (user s)), (''auth_timestamp'', num_toString now)]"
    if "{''auth_token'', ''auth_user'', ''auth_timestamp''} \<inter> fst ` set (query u) = {}"
  proof -
    from that have 1: "''auth_token'' \<notin> fst ` set (query u)"
      and 2: "''auth_user'' \<notin> fst ` set (query u)"
      and 3: "''auth_timestamp'' \<notin> fst ` set (query u)"
      by auto
    have s1: "sp_set ''auth_token'' token (query u) = query u @ [(''auth_token'', token)]"
      using 1 by (rule sp_set_append)
    have s2: "sp_set ''auth_user'' (JSON_stringify E (user s)) (query u @ [(''auth_token'', token)])
        = query u @ [(''auth_token'', token)] @ [(''auth_user'', JSON_stringify E (user s))]"
      using 2 sp_set_append [of "''auth_user''" "query u @ [(''auth_token'', token)]"] by simp
    have s3: "sp_set ''auth_timestamp'' (num_toString now)
         (query u @ [(''auth_token'', token)] @ [(''auth_user'', JSON_stringify E (user s))])
        = query u @ [(''auth_token'', token), (''auth_user'', JSON_stringify E (user s)),
             (''auth_timestamp'', num_toString now)]"
      using 3 sp_set_append [of "''auth_timestamp''"
          "query u @ [(''auth_token'', token)] @ [(''auth_user'', JSON_stringify E (user s))]"]
      by simp
    show ?thesis by (simp add: with_auth_params_def s1 s2 [simplified] s3 [simplified])
  qed
  have no: "fst (generateAuthUrl E now s target) = Inl NotLoggedIn"
    if "\<not> (truthy (user s) \<and> \<not> expired (tokenExpiryTime s) now)"
    using that by (auto simp: generateAuthUrl_def isLoggedIn_def)
  have inv: "generateAuthUrl E now s target = (Inl InvalidAuthState, s)"
    if "truthy (user s)" "\<not> expired (tokenExpiryTime s) now" "\<not> truthy_str (getToken s)"
    using that by (simp add: generateAuthUrl_def isLoggedIn_active)
  have fields: "base ?v = base u" "fragment ?v = fragment u"
    by (simp_all add: with_auth_params_def)
  show ?thesis
    using ok app no inv fields query_with_auth_params [of token "JSON_stringify E (user s)" "num_toString now" u]
    by blast
qed

text \<open>The signed-in example manager gets the hand-off URL; the fresh one gets the error.\<close>

theorem generateAuthUrl_result_witness:
  "truthy (user signed_in) \<and> \<not> expired (tokenExpiryTime signed_in) 1700000000000 \<and>
   getToken signed_in = Some ''tok-1'' \<and>
   URL_parse env_demo ''https://app-b.example/landing'' = Some target_url \<and>
   generateAuthUrl env_demo 1700000000000 signed_in ''https://app-b.example/landing''
     = (Inr handoff_href, signed_in) \<and>
   \<not> truthy (user fresh) \<and>
   fst (generateAuthUrl env_demo 1700000000000 fresh ''https://app-b.example/landing'')
     = Inl NotLoggedIn"
proof -
  have a: "truthy (user signed_in)" "\<not> expired (tokenExpiryTime signed_in) 1700000000000"
    "getToken signed_in = Some ''tok-1''"
    by (simp_all add: signed_in_fields alice_def)
  have p: "URL_parse env_demo ''https://app-b.example/landing'' = Some target_url"
    by (simp add: env_demo_def handoff_href_def)
  have j: "JSON_stringify env_demo alice = alice_json"
    by (simp add: env_demo_def)
  have t: "URL_toString env_demo handoff_url = handoff_href"
    by (simp add: env_demo_def)
  have f: "\<not> truthy (user fresh)" by (simp add: fresh_def)
  show ?thesis
    using generateAuthUrl_result [of signed_in 1700000000000 "''tok-1''" env_demo
        "''https://app-b.example/landing''" target_url]
      generateAuthUrl_result [of fresh 1700000000000 "''tok-1''" env_demo
        "''https://app-b.example/landing''" target_url]
      a p f
    by (simp add: signed_in_fields j num_toString_demo handoff_url_demo t)
qed

text \<open>
  C9. \<open>getToken\<close> is a function of the two stored tokens only: the one of \<open>localStorage\<close>
  when it is non-empty, else the one of \<open>sessionStorage\<close>. So with a truthy, unexpired
  subject in memory and no token in either store, \<open>isLoggedIn\<close> returns true while
  \<open>generateAuthUrl\<close> and \<open>shareAuthWithApp\<close> throw the invalid-state error.
\<close>

theorem getToken_reads_storage_only:
  "getToken s = (if truthy_str (localStorage s ''auth:token'') then localStorage s ''auth:token''
                 else sessionStorage s ''auth:token'') \<and>
   (localStorage s' ''auth:token'' = localStorage s ''auth:token'' \<and>
    sessionStorage s' ''auth:token'' = sessionStorage s ''auth:token'' \<longrightarrow>
      getToken s' = getToken s) \<and>
   (truthy (user s) \<and> \<not> expired (tokenExpiryTime s) now \<and>
    localStorage s ''auth:token'' = None \<and> sessionStorage s ''auth:token'' = None \<longrightarrow>
      isLoggedIn E now s = (True, s) \<and>
      generateAuthUrl E now s target = (Inl InvalidAuthState, s) \<and>
      shareAuthWithApp E now s origin = (Inl InvalidAuthState, s))"
proof -
  have "generateAuthUrl E now s target = (Inl InvalidAuthState, s)"
    "shareAuthWithApp E now s origin = (Inl InvalidAuthState, s)"
    if "truthy (user s)" "\<not> expired (tokenExpiryTime s) now"
      "localStorage s ''auth:token'' = None" "sessionStorage s ''auth:token'' = None"
    using that
    by (simp_all add: generateAuthUrl_def shareAuthWithApp_def isLoggedIn_active getToken_def
        or_else_def)
  then show ?thesis
    by (simp add: getToken_def or_else_def isLoggedIn_active)
qed

text \<open>The signed-in example manager after both stores were cleared from outside.\<close>

theorem getToken_reads_storage_only_witness:
  "truthy (user (signed_in\<lparr>localStorage := (\<lambda>k. None), sessionStorage := (\<lambda>k. None)\<rparr>)) \<and>
   isLoggedIn env_demo 1700000000000
      (signed_in\<lparr>localStorage := (\<lambda>k. None), sessionStorage := (\<lambda>k. None)\<rparr>)
     = (True, signed_in\<lparr>localStorage := (\<lambda>k. None), sessionStorage := (\<lambda>k. None)\<rparr>) \<and>
   generateAuthUrl env_demo 1700000000000
      (signed_in\<lparr>localStorage := (\<lambda>k. None), sessionStorage := (\<lambda>k. None)\<rparr>)
      ''https://app-b.example/landing''
     = (Inl InvalidAuthState,
        signed_in\<lparr>localStorage := (\<lambda>k. None), sessionStorage := (\<lambda>k. None)\<rparr>) \<and>
   shareAuthWithApp env_demo 1700000000000
      (signed_in\<lparr>localStorage := (\<lambda>k. None), sessionStorage := (\<lambda>k. None)\<rparr>)
      ''https://app-b.example''
     = (Inl InvalidAuthState,
        signed_in\<lparr>localStorage := (\<lambda>k. None), sessionStorage := (\<lambda>k. None)\<rparr>)"
proof -
  let ?s = "signed_in\<lparr>localStorage := (\<lambda>k. None), sessionStorage := (\<lambda>k. None)\<rparr>"
  have a: "truthy (user ?s)" "\<not> expired (tokenExpiryTime ?s) 1700000000000"
    by (simp_all add: signed_in_fields alice_def)
  show ?thesis
    using getToken_reads_storage_only [of ?s ?s 1700000000000 env_demo
        "''https://app-b.example/landing''" "''https://app-b.example''"] a
    by simp
qed

text \<open>
  C2. Constructing the manager of src/index.ts on a page whose stored token is present
  and whose stored subject does not parse: the \<open>SyntaxError\<close> of \<open>JSON.parse\<close> leaves the
  constructor. (The build with the \<open>try\<close> block recovers on the same page, see
  \<open>construct_corrupt_page\<close>.)
\<close>

theorem construct_ts_throws_on_corrupt_subject:
  "localStorage corrupt_page ''auth:token'' = Some ''tok-1'' \<and>
   localStorage corrupt_page ''auth:user'' = Some ''not-json'' \<and>
   JSON_parse env_demo ''not-json'' = None \<and>
   construct_ts env_demo corrupt_page = Inl SyntaxError"
  by (simp add: construct_ts_def restoreSession_ts_def corrupt_page_def page_def env_demo_def
      alice_json_def)

text \<open>
  C3, as stated, fails: with a cookie that holds only a token and a \<open>localStorage\<close> that
  holds only a subject, no source has a pair, and yet construction adopts the stored
  subject, the cookie's token having passed the guard.
\<close>

theorem restore_combines_sources_counterexample:
  "getCookie env_demo mixed_page ''auth_token'' = Inr (Some ''tok-9'') \<and>
   getCookie env_demo mixed_page ''auth_user'' = Inr None \<and>
   localStorage mixed_page ''auth:token'' = None \<and>
   localStorage mixed_page ''auth:user'' = Some alice_json \<and>
   map_sum id getUser (construct env_demo no_config mixed_page) = Inr alice"
proof -
  let ?s = "mixed_page\<lparr>user := JNull, arrays := arrays mixed_page @ [[]],
      listeners := length (arrays mixed_page), tokenExpiryTime := ENull,
      config := resolve_config env_demo no_config\<rparr>"
  have c: "getCookie env_demo ?s ''auth_token'' = Inr (Some ''tok-9'')"
    "getCookie env_demo ?s ''auth_user'' = Inr None"
    using getCookie_mixed by (simp_all add: getCookie_cookies [of ?s mixed_page])
  have l: "localStorage mixed_page ''auth:token'' = None"
    "localStorage mixed_page ''auth:user'' = Some alice_json"
    "localStorage mixed_page ''auth:expiry'' = None"
    by (simp_all add: mixed_page_def page_def)
  have j: "JSON_parse env_demo alice_json = Some alice" "alice_json \<noteq> []"
    by (simp_all add: env_demo_def alice_json_def)
  have "construct env_demo no_config mixed_page = Inr (?s\<lparr>user := alice\<rparr>)"
    unfolding construct_def restoreSession_def c
    by (simp add: or_else_def j l Let_def)
  then show ?thesis
    using getCookie_mixed l by (simp add: getUser_def)
qed

text \<open>
  C3, amended. A cookie value that cannot be decoded makes the constructor throw. When
  both cookie reads succeed, restoration chooses the token and the subject each on its
  own, from the cookie when the field is non-empty there and else from \<open>localStorage\<close>.
  When both chosen strings are non-empty and the chosen subject parses, only that
  subject is adopted, with the deadline stored in \<open>localStorage\<close>; the chosen token passes
  the guard and is stored nowhere, so \<open>getToken()\<close> answers the stored token as before and
  the three stores are as they were. Hence the cookie's subject is adopted when the
  cookie holds both fields, whatever the storage holds; the stored subject when the
  cookie holds neither field and the storage both; and with one field in the cookie, a
  subject is adopted once the storage supplies the other field, the guard's token and
  the subject coming from different sources. With an empty chosen field nothing is
  adopted; with a chosen subject that does not parse the manager logs out.
\<close>

theorem restore_picks_each_field:
  "(getCookie E s0 ''auth_token'' = Inl e \<longrightarrow> construct E c s0 = Inl e) \<and>
   (getCookie E s0 ''auth_token'' = Inr ct \<and> getCookie E s0 ''auth_user'' = Inl e \<longrightarrow>
      construct E c s0 = Inl e) \<and>
   (getCookie E s0 ''auth_token'' = Inr ct \<and> getCookie E s0 ''auth_user'' = Inr cu \<longrightarrow>
      (truthy_str ct \<and> truthy_str cu \<and> JSON_parse E (the cu) = Some usr \<longrightarrow>
         restored (construct E c s0) = Inr (usr, getToken s0, stored_deadline s0) \<and>
         stores (construct E c s0) = Inr (localStorage s0, sessionStorage s0, cookies s0)) \<and>
      (\<not> truthy_str ct \<and> \<not> truthy_str cu \<and> truthy_str (localStorage s0 ''auth:token'') \<and>
       truthy_str (localStorage s0 ''auth:user'') \<and>
       JSON_parse E (the (localStorage s0 ''auth:user'')) = Some usr \<longrightarrow>
         restored (construct E c s0) = Inr (usr, getToken s0, stored_deadline s0) \<and>
         stores (construct E c s0) = Inr (localStorage s0, sessionStorage s0, cookies s0)) \<and>
      (truthy_str ct \<and> \<not> truthy_str cu \<and> truthy_str (localStorage s0 ''auth:user'') \<and>
       JSON_parse E (the (localStorage s0 ''auth:user'')) = Some usr \<longrightarrow>
         restored (construct E c s0) = Inr (usr, getToken s0, stored_deadline s0) \<and>
         stores (construct E c s0) = Inr (localStorage s0, sessionStorage s0, cookies s0)) \<and>
      (\<not> truthy_str ct \<and> truthy_str cu \<and> truthy_str (localStorage s0 ''auth:token'') \<and>
       JSON_parse E (the cu) = Some usr \<longrightarrow>
         restored (construct E c s0) = Inr (usr, getToken s0, stored_deadline s0) \<and>
         stores (construct E c s0) = Inr (localStorage s0, sessionStorage s0, cookies s0)) \<and>
      (\<not> truthy_str (or_else ct (localStorage s0 ''auth:token'')) \<or>
       \<not> truthy_str (or_else cu (localStorage s0 ''auth:user'')) \<longrightarrow>
         restored (construct E c s0) = Inr (JNull, getToken s0, ENull) \<and>
         stores (construct E c s0) = Inr (localStorage s0, sessionStorage s0, cookies s0)) \<and>
      (truthy_str (or_else ct (localStorage s0 ''auth:token'')) \<and>
       truthy_str (or_else cu (localStorage s0 ''auth:user'')) \<and>
       JSON_parse E (the (or_else cu (localStorage s0 ''auth:user''))) = None \<longrightarrow>
         restored (construct E c s0) = Inr (JNull, None, ENull)))"
proof -
  let ?lt = "localStorage s0 ''auth:token''" and ?lu = "localStorage s0 ''auth:user''"
  let ?kept = "Inr (localStorage s0, sessionStorage s0, cookies s0)"
  have err: "construct E c s0 = Inl e" if "getCookie E s0 ''auth_token'' = Inl e"
    using that by (rule construct_cookie_error(1))
  have err': "construct E c s0 = Inl e"
    if "getCookie E s0 ''auth_token'' = Inr ct" "getCookie E s0 ''auth_user'' = Inl e"
    using that by (rule construct_cookie_error(2))
  {
    assume g: "getCookie E s0 ''auth_token'' = Inr ct" "getCookie E s0 ''auth_user'' = Inr cu"
    note r = restored_construct [OF g, of c]
    have adopt: "restored (construct E c s0) = Inr (usr, getToken s0, stored_deadline s0) \<and>
        stores (construct E c s0) = ?kept"
      if "truthy_str (or_else ct ?lt)" "truthy_str (or_else cu ?lu)"
        "JSON_parse E (the (or_else cu ?lu)) = Some usr"
      using that r storage_construct [OF g, of c] by (simp add: stores_def)
    have skip: "restored (construct E c s0) = Inr (JNull, getToken s0, ENull) \<and>
        stores (construct E c s0) = ?kept"
      if "\<not> truthy_str (or_else ct ?lt) \<or> \<not> truthy_str (or_else cu ?lu)"
      using that r storage_construct [OF g, of c] by (auto simp: stores_def)
    have bad: "restored (construct E c s0) = Inr (JNull, None, ENull)"
      if "truthy_str (or_else ct ?lt)" "truthy_str (or_else cu ?lu)"
        "JSON_parse E (the (or_else cu ?lu)) = None"
      using that r by simp
    have c1: "restored (construct E c s0) = Inr (usr, getToken s0, stored_deadline s0) \<and>
        stores (construct E c s0) = ?kept"
      if "truthy_str ct" "truthy_str cu" "JSON_parse E (the cu) = Some usr"
      using that adopt by (simp add: or_else_def)
    have c2: "restored (construct E c s0) = Inr (usr, getToken s0, stored_deadline s0) \<and>
        stores (construct E c s0) = ?kept"
      if "\<not> truthy_str ct" "\<not> truthy_str cu" "truthy_str ?lt" "truthy_str ?lu"
        "JSON_parse E (the ?lu) = Some usr"
      using that adopt by (simp add: or_else_def)
    have c3: "restored (construct E c s0) = Inr (usr, getToken s0, stored_deadline s0) \<and>
        stores (construct E c s0) = ?kept"
      if "truthy_str ct" "\<not> truthy_str cu" "truthy_str ?lu" "JSON_parse E (the ?lu) = Some usr"
      using that adopt by (simp add: or_else_def)
    have c4: "restored (construct E c s0) = Inr (usr, getToken s0, stored_deadline s0) \<and>
        stores (construct E c s0) = ?kept"
      if "\<not> truthy_str ct" "truthy_str cu" "truthy_str ?lt" "JSON_parse E (the cu) = Some usr"
      using that adopt by (simp add: or_else_def)
    note c1 c2 c3 c4 skip bad
  }
  note cases = this
  show ?thesis
    using err err' cases by blast
qed

text \<open>
  A complete cookie pair beside another stored token: the cookie's subject, the stored
  token. The mixed page: the stored subject, no token at all.
\<close>

theorem restore_picks_each_field_witness:
  "getCookie env_demo both_page ''auth_token'' = Inr (Some ''ctok'') \<and>
   getCookie env_demo both_page ''auth_user'' = Inr (Some alice_json) \<and>
   localStorage both_page ''auth:token'' = Some ''ltok'' \<and>
   restored (construct env_demo no_config both_page) = Inr (alice, Some ''ltok'', ENull) \<and>
   getCookie env_demo mixed_page ''auth_token'' = Inr (Some ''tok-9'') \<and>
   getCookie env_demo mixed_page ''auth_user'' = Inr None \<and>
   restored (construct env_demo no_config mixed_page) = Inr (alice, None, ENull)"
proof -
  have j: "JSON_parse env_demo (the (Some alice_json)) = Some alice"
    "truthy_str (Some alice_json)" "truthy_str (Some ''ctok'')" "truthy_str (Some ''tok-9'')"
    "\<not> truthy_str None"
    by (simp_all add: env_demo_def alice_json_def)
  have b: "localStorage both_page ''auth:token'' = Some ''ltok''" "getToken both_page = Some ''ltok''"
    "stored_deadline both_page = ENull"
    by (simp_all add: both_page_def page_def getToken_def or_else_def stored_deadline_def)
  have m: "localStorage mixed_page ''auth:user'' = Some alice_json" "getToken mixed_page = None"
    "stored_deadline mixed_page = ENull"
    by (simp_all add: mixed_page_def page_def getToken_def or_else_def stored_deadline_def)
  have 1: "restored (construct env_demo no_config both_page)
      = Inr (alice, getToken both_page, stored_deadline both_page)"
    using restore_picks_each_field [of env_demo both_page URIError no_config "Some ''ctok''"
        "Some alice_json" alice] getCookie_both j
    by blast
  have 2: "restored (construct env_demo no_config mixed_page)
      = Inr (alice, getToken mixed_page, stored_deadline mixed_page)"
    using restore_picks_each_field [of env_demo mixed_page URIError no_config "Some ''tok-9''"
        None alice] getCookie_mixed j m(1)
    by (simp add: m(1))
  show ?thesis
    using 1 2 getCookie_both getCookie_mixed b m by simp
qed

text \<open>
  C4, as stated, fails: an \<open>AUTH_SHARE\<close> envelope within the replay window is applied by
  a full \<open>login\<close>, which posts a window message and a channel message.
\<close>

theorem auth_share_rebroadcasts_counterexample:
  "outbound fresh = ([], [], []) \<and>
   outbound (receive env_demo 1700000060000 fresh (Window share_demo))
     = ([Message ''AUTH_LOGIN'' alice None], [Message ''login'' alice None], [])"
proof -
  have c: "crossOriginEnabled (config fresh)" by (simp add: fresh_def)
  have "receive env_demo 1700000060000 fresh (Window share_demo)
      = login env_demo 1700000060000 fresh alice ''tok-1''"
    using c by (simp add: share_demo_def on_share_message_def on_window_message_def)
  then show ?thesis
    by (simp add: outbound_login) (simp add: outbound_def fresh_def page_def env_demo_def)
qed

text \<open>
  C4, amended. Messages on the broadcast channel, storage events, and window messages
  other than \<open>AUTH_SHARE\<close> emit nothing on any channel; the login and logout ones set the
  subject in memory and call every subscriber once with it. An accepted \<open>AUTH_SHARE\<close>
  envelope is a \<open>login\<close>: it emits one \<open>AUTH_LOGIN\<close> window message and, where the channel
  exists, one \<open>login\<close> channel message, and receiving either of these emits nothing
  further.
\<close>

theorem inbound_broadcasts:
  "outbound (receive E now s (Channel m)) = outbound s \<and>
   outbound (receive E now s (Storage k nv ov)) = outbound s \<and>
   (mtype m \<noteq> ''AUTH_SHARE'' \<longrightarrow> outbound (receive E now s (Window m)) = outbound s) \<and>
   (crossOriginEnabled (config s) \<and> mtype m = ''AUTH_SHARE'' \<and> mauth m = Some a \<and>
    now - sh_timestamp a < 5 * 60 * 1000 \<longrightarrow>
      receive E now s (Window m) = login E now s (sh_user a) (sh_token a) \<and>
      outbound (receive E now s (Window m)) =
        (windowPosted s @ [Message ''AUTH_LOGIN'' (sh_user a) None],
         channelPosted s @ (if channelSupported E then [Message ''login'' (sh_user a) None] else []),
         shared s) \<and>
      outbound (receive E now' (receive E now s (Window m))
                  (Window (Message ''AUTH_LOGIN'' (sh_user a) None)))
        = outbound (receive E now s (Window m)) \<and>
      outbound (receive E now' (receive E now s (Window m))
                  (Channel (Message ''login'' (sh_user a) None)))
        = outbound (receive E now s (Window m))) \<and>
   (valid_ref s \<and> mtype m = ''login'' \<longrightarrow>
      user (receive E now s (Channel m)) = muser m \<and>
      calls (receive E now s (Channel m)) = calls s @ map (\<lambda>l. (l, muser m)) (registered s)) \<and>
   (valid_ref s \<and> mtype m = ''logout'' \<longrightarrow>
      user (receive E now s (Channel m)) = JNull \<and>
      calls (receive E now s (Channel m)) = calls s @ map (\<lambda>l. (l, JNull)) (registered s)) \<and>
   (valid_ref s \<and> mtype m = ''AUTH_LOGIN'' \<longrightarrow>
      user (receive E now s (Window m)) = muser m \<and>
      calls (receive E now s (Window m)) = calls s @ map (\<lambda>l. (l, muser m)) (registered s)) \<and>
   (valid_ref s \<and> mtype m = ''AUTH_LOGOUT'' \<longrightarrow>
      user (receive E now s (Window m)) = JNull \<and>
      calls (receive E now s (Window m)) = calls s @ map (\<lambda>l. (l, JNull)) (registered s)) \<and>
   (valid_ref s \<and> k = Some ''auth:user'' \<and> \<not> truthy_str nv \<and> truthy_str ov \<longrightarrow>
      user (receive E now s (Storage k nv ov)) = JNull \<and>
      calls (receive E now s (Storage k nv ov)) = calls s @ map (\<lambda>l. (l, JNull)) (registered s))"
proof -
  have ch: "outbound (receive E now s (Channel m)) = outbound s"
    by (simp add: outbound_on_channel_message)
  have st: "outbound (receive E now s (Storage k nv ov)) = outbound s"
    by (simp add: outbound_on_storage)
  have wi: "outbound (receive E t s' (Window m')) = outbound s'"
    if "mtype m' \<noteq> ''AUTH_SHARE''" for t s' m'
    using that by (simp add: on_share_message_other outbound_on_window_message)
  have sh: "receive E now s (Window m) = login E now s (sh_user a) (sh_token a)"
    if "crossOriginEnabled (config s)" "mtype m = ''AUTH_SHARE''" "mauth m = Some a"
      "now - sh_timestamp a < 5 * 60 * 1000"
    using that by (simp add: on_share_message_accept on_window_message_def)
  have echo_w: "outbound (receive E now' s' (Window (Message ''AUTH_LOGIN'' u None))) = outbound s'"
    for s' u
    by (rule wi) simp
  have echo_c: "outbound (receive E now' s' (Channel (Message ''login'' u None))) = outbound s'"
    for s' u
    by (simp add: outbound_on_channel_message)
  have ap_c: "user (receive E now s (Channel m)) = muser m \<and>
      calls (receive E now s (Channel m)) = calls s @ map (\<lambda>l. (l, muser m)) (registered s)"
    if "valid_ref s" "mtype m = ''login''"
    using that applied_notify [of s E "muser m"] by (simp add: on_channel_message_def)
  have ap_c': "user (receive E now s (Channel m)) = JNull \<and>
      calls (receive E now s (Channel m)) = calls s @ map (\<lambda>l. (l, JNull)) (registered s)"
    if "valid_ref s" "mtype m = ''logout''"
    using that applied_notify [of s E JNull] by (simp add: on_channel_message_def)
  have ap_w: "user (receive E now s (Window m)) = muser m \<and>
      calls (receive E now s (Window m)) = calls s @ map (\<lambda>l. (l, muser m)) (registered s)"
    if "valid_ref s" "mtype m = ''AUTH_LOGIN''"
    using that applied_notify [of s E "muser m"]
    by (simp add: on_window_message_def on_share_message_other)
  have ap_w': "user (receive E now s (Window m)) = JNull \<and>
      calls (receive E now s (Window m)) = calls s @ map (\<lambda>l. (l, JNull)) (registered s)"
    if "valid_ref s" "mtype m = ''AUTH_LOGOUT''"
    using that applied_notify [of s E JNull]
    by (simp add: on_window_message_def on_share_message_other)
  have ap_s: "user (receive E now s (Storage k nv ov)) = JNull \<and>
      calls (receive E now s (Storage k nv ov)) = calls s @ map (\<lambda>l. (l, JNull)) (registered s)"
    if "valid_ref s" "k = Some ''auth:user''" "\<not> truthy_str nv" "truthy_str ov"
    using that applied_notify [of s E JNull] by (simp add: on_storage_def)
  show ?thesis
    using ch st wi [of m now s] sh echo_w echo_c ap_c ap_c' ap_w ap_w' ap_s outbound_login
    by (simp del: receive.simps)
qed

text \<open>The example envelope, its echo, a logout message and a channel login.\<close>

theorem inbound_broadcasts_witness:
  "crossOriginEnabled (config fresh) \<and> valid_ref fresh \<and>
   mtype share_demo = ''AUTH_SHARE'' \<and>
   receive env_demo 1700000060000 fresh (Window share_demo)
     = login env_demo 1700000060000 fresh alice ''tok-1'' \<and>
   outbound (receive env_demo 1700000120000
               (receive env_demo 1700000060000 fresh (Window share_demo))
               (Window (Message ''AUTH_LOGIN'' alice None)))
     = outbound (receive env_demo 1700000060000 fresh (Window share_demo)) \<and>
   outbound (receive env_demo 1700000060000 fresh (Window (Message ''AUTH_LOGOUT'' JUndefined None)))
     = outbound fresh \<and>
   user (receive env_demo 1700000060000 fresh (Channel (Message ''login'' alice None))) = alice"
proof -
  let ?a = "Share ''tok-1'' alice 1700000000000"
  have c: "crossOriginEnabled (config fresh)" by (simp add: fresh_def)
  have v: "valid_ref fresh" by (simp add: valid_ref_def fresh_def page_def)
  have m: "mtype share_demo = ''AUTH_SHARE''" "mauth share_demo = Some ?a"
    by (simp_all add: share_demo_def)
  have t: "(1700000060000::int) - sh_timestamp ?a < 5 * 60 * 1000" by simp
  have f: "sh_user ?a = alice" "sh_token ?a = ''tok-1''" by simp_all
  have o: "mtype (Message ''AUTH_LOGOUT'' JUndefined None) \<noteq> ''AUTH_SHARE''"
    "mtype (Message ''login'' alice None) = ''login''"
    "muser (Message ''login'' alice None) = alice"
    by simp_all
  have 1: "receive env_demo 1700000060000 fresh (Window share_demo)
             = login env_demo 1700000060000 fresh (sh_user ?a) (sh_token ?a) \<and>
           outbound (receive env_demo 1700000120000
               (receive env_demo 1700000060000 fresh (Window share_demo))
               (Window (Message ''AUTH_LOGIN'' (sh_user ?a) None)))
             = outbound (receive env_demo 1700000060000 fresh (Window share_demo))"
    using inbound_broadcasts [of env_demo 1700000060000 fresh share_demo None None None ?a
        1700000120000] c m t
    by blast
  have 2: "outbound (receive env_demo 1700000060000 fresh
               (Window (Message ''AUTH_LOGOUT'' JUndefined None))) = outbound fresh"
    using inbound_broadcasts [of env_demo 1700000060000 fresh
        "Message ''AUTH_LOGOUT'' JUndefined None" None None None ?a 1700000120000] o(1)
    by blast
  have 3: "user (receive env_demo 1700000060000 fresh (Channel (Message ''login'' alice None)))
             = muser (Message ''login'' alice None)"
    using inbound_broadcasts [of env_demo 1700000060000 fresh "Message ''login'' alice None"
        None None None ?a 1700000120000] v o(2)
    by blast
  show ?thesis
    using c v m(1) 1 2 3 unfolding f o(3) by blast
qed

end
